theory Spec2Isabelle
  imports
    Complex_Main
    "HOL-Library.Char_ord"
    "HOL-Library.List_Lexorder"
    "HOL-Library.Option_ord"
    "HOL-Library.Product_Lexorder"
    "HOL-Library.Multiset"
    "HOL-Library.Sublist"
begin

section \<open>Text: characters and the string methods the module calls\<close>

text \<open>
  A Python \<open>str\<close> is modelled as a \<open>string\<close>, each \<open>char\<close> standing for the code
  point with the same number (0 to 255). The predicates below are Python's own
  classification of these code points: \<open>str.isspace\<close> (which is also what \<open>\s\<close> and
  \<open>str.strip()\<close> use), the decimal digits \<open>\d\<close>, and \<open>str.lower\<close>.

  Text with a code point above 255 is outside this model. That matters for \<open>re.I\<close>,
  under which a few such code points match an ASCII letter of a pattern (U+0130 and
  U+0131 match \<open>i\<close>, U+017F matches \<open>s\<close>, U+212A matches \<open>k\<close>). What is proved below
  of every text is proved of the texts of the model. Where that would not carry over
  to the other texts (that a text without the word \<open>registre\<close> is not matched), the
  property is stated of sentences that are written out instead.
\<close>

definition isspace :: "char \<Rightarrow> bool" where
  "isspace c =
     (let n = (of_char c :: nat)
      in (9 \<le> n \<and> n \<le> 13) \<or> (28 \<le> n \<and> n \<le> 32) \<or> n = 133 \<or> n = 160)"

definition isdigit :: "char \<Rightarrow> bool" where
  "isdigit c = (let n = (of_char c :: nat) in 48 \<le> n \<and> n \<le> 57)"

definition lower :: "char \<Rightarrow> char" where
  "lower c =
     (let n = (of_char c :: nat)
      in if (65 \<le> n \<and> n \<le> 90) \<or> (192 \<le> n \<and> n \<le> 222 \<and> n \<noteq> 215)
         then char_of (n + 32) else c)"

definition strip :: "string \<Rightarrow> string" where
  "strip s = dropWhile isspace (rev (dropWhile isspace (rev s)))"

text \<open>\<open>s.replace(old, new)\<close> for a one-character \<open>old\<close>.\<close>

definition replace :: "char \<Rightarrow> string \<Rightarrow> string \<Rightarrow> string" where
  "replace old new s = concat (map (\<lambda>c. if c = old then new else [c]) s)"

section \<open>Errors\<close>

datatype error = ValueError | AttributeError | IntegrityError | OverflowError

section \<open>Regular expressions with Python's backtracking order\<close>

text \<open>
  The fragment of \<open>re\<close> syntax that \<open>PADRAO\<close> is written in. A quantifier applies to a
  single-character set (\<open>\s+\<close>, \<open>[\d\.,]+\<close>, \<open>\d{1,2}\<close>, \<open>.+?\<close>, \<open>s?\<close>) or, as \<open>(?:...)?\<close>,
  to a group. All matching is under \<open>re.I\<close>.
\<close>

datatype atom = ADigit | ASpace | AChar char

datatype cset = Any | In "atom list"

datatype regex =
    Lit string
  | Rep cset nat "nat option" bool
  | Opt regex
  | Cat "regex list"
  | Alt regex regex
  | Grp nat regex
  | Eol

fun atom_ok :: "atom \<Rightarrow> char \<Rightarrow> bool" where
  "atom_ok ADigit c = isdigit c"
| "atom_ok ASpace c = isspace c"
| "atom_ok (AChar a) c = (lower c = lower a)"

fun cset_ok :: "cset \<Rightarrow> char \<Rightarrow> bool" where
  "cset_ok Any c = (c \<noteq> CHR 0x0A)"
| "cset_ok (In as) c = list_ex (\<lambda>a. atom_ok a c) as"

type_synonym caps = "nat \<Rightarrow> string option"

text \<open>
  \<open>run cs hi s\<close> is how many leading characters of \<open>s\<close> a repetition of \<open>cs\<close> can take,
  at most \<open>hi\<close> of them when the quantifier has an upper bound.
\<close>

definition run :: "cset \<Rightarrow> nat option \<Rightarrow> string \<Rightarrow> nat" where
  "run cs hi s =
     (let k = length (takeWhile (cset_ok cs) s)
      in case hi of None \<Rightarrow> k | Some h \<Rightarrow> min h k)"

text \<open>
  \<open>ms r (s, c)\<close> lists every way \<open>r\<close> can match a prefix of \<open>s\<close>, as the rest of the text
  and the groups captured, in the order in which the backtracking matcher tries them:
  a greedy quantifier longest first, a lazy one shortest first, an optional group taken
  before skipped, the left alternative before the right.
\<close>

fun ms :: "regex \<Rightarrow> string \<times> caps \<Rightarrow> (string \<times> caps) list" where
  "ms (Lit p) (s, c) =
     (if map lower (take (length p) s) = map lower p then [(drop (length p) s, c)] else [])"
| "ms (Rep cs lo hi greedy) (s, c) =
     (let ns = [lo..<Suc (run cs hi s)]
      in map (\<lambda>n. (drop n s, c)) (if greedy then rev ns else ns))"
| "ms (Opt r) st = ms r st @ [st]"
| "ms (Cat []) st = [st]"
| "ms (Cat (r # rs)) st = concat (map (ms (Cat rs)) (ms r st))"
| "ms (Alt a b) st = ms a st @ ms b st"
| "ms (Grp n r) (s, c) =
     map (\<lambda>(s', c'). (s', c'(n \<mapsto> take (length s - length s') s))) (ms r (s, c))"
| "ms Eol (s, c) = (if s = [] \<or> s = [CHR 0x0A] then [(s, c)] else [])"

text \<open>\<open>pattern.search(s)\<close>: the first match at the leftmost position that has one.\<close>

fun search :: "regex \<Rightarrow> string \<Rightarrow> caps option" where
  "search r [] = (case ms r ([], Map.empty) of [] \<Rightarrow> None | (_, c) # _ \<Rightarrow> Some c)"
| "search r (x # xs) =
     (case ms r (x # xs, Map.empty) of [] \<Rightarrow> search r xs | (_, c) # _ \<Rightarrow> Some c)"

text \<open>
  \<^verbatim>\<open>registre(?:\s+no\s+banco\s+de\s+dados)?\s+(?:r\$\s*)?([\d\.,]+)\s+de\s+\<close>
  \<^verbatim>\<open>(faturamento|despesa)s?\s+em\s+(\d{1,2}[\/-]\d{1,2}[\/-]\d{4})\<close>
  \<^verbatim>\<open>(?:\s+com\s+descricao\s+(.+?))?[\s\.]*$\<close>
\<close>

definition sp1 :: regex where
  "sp1 = Rep (In [ASpace]) 1 None True"

definition PADRAO :: regex where
  "PADRAO = Cat
     [Lit ''registre'',
      Opt (Cat [sp1, Lit ''no'', sp1, Lit ''banco'', sp1, Lit ''de'', sp1, Lit ''dados'']),
      sp1,
      Opt (Cat [Lit ''r$'', Rep (In [ASpace]) 0 None True]),
      Grp 1 (Rep (In [ADigit, AChar CHR ''.'', AChar CHR '','']) 1 None True),
      sp1, Lit ''de'', sp1,
      Grp 2 (Alt (Lit ''faturamento'') (Lit ''despesa'')),
      Rep (In [AChar CHR ''s'']) 0 (Some 1) True,
      sp1, Lit ''em'', sp1,
      Grp 3 (Cat
        [Rep (In [ADigit]) 1 (Some 2) True,
         Rep (In [AChar CHR ''/'', AChar CHR ''-'']) 1 (Some 1) True,
         Rep (In [ADigit]) 1 (Some 2) True,
         Rep (In [AChar CHR ''/'', AChar CHR ''-'']) 1 (Some 1) True,
         Rep (In [ADigit]) 4 (Some 4) True]),
      Opt (Cat [sp1, Lit ''com'', sp1, Lit ''descricao'', sp1, Grp 4 (Rep Any 1 None False)]),
      Rep (In [ASpace, AChar CHR ''.'']) 0 None True,
      Eol]"

section \<open>Numbers and dates\<close>

fun digit_val :: "char \<Rightarrow> nat" where
  "digit_val c = of_char c - 48"

definition int_of_digits :: "string \<Rightarrow> nat" where
  "int_of_digits s = foldl (\<lambda>n c. 10 * n + digit_val c) 0 s"

text \<open>
  \<open>float(s)\<close> on the strings that reach it here: decimal digits and dots only (group 1
  is \<open>[\d\.,]+\<close>, with the dots removed and the commas turned into dots). Such a string is
  a number when it has at most one dot and at least one digit; anything else raises
  \<open>ValueError\<close>. The value is kept as the exact decimal the text denotes: the double that
  Python returns is the one nearest to it, and neither the rounding nor the overflow to
  infinity of a very long digit string is modelled.
\<close>

definition py_float :: "string \<Rightarrow> error + rat" where
  "py_float s =
     (let ip = takeWhile isdigit s; rest = dropWhile isdigit s
      in case rest of
           [] \<Rightarrow> if ip = [] then Inl ValueError else Inr (of_nat (int_of_digits ip))
         | d # fp \<Rightarrow>
             if d = CHR ''.'' \<and> list_all isdigit fp \<and> (ip \<noteq> [] \<or> fp \<noteq> [])
             then Inr (of_nat (int_of_digits ip) + of_nat (int_of_digits fp) / 10 ^ length fp)
             else Inl ValueError)"

fun split_on :: "char \<Rightarrow> string \<Rightarrow> string list" where
  "split_on sep [] = [[]]"
| "split_on sep (c # s) =
     (if c = sep then [] # split_on sep s
      else (case split_on sep s of w # ws \<Rightarrow> (c # w) # ws | [] \<Rightarrow> [[c]]))"

definition is_leap :: "nat \<Rightarrow> bool" where
  "is_leap y = (y mod 4 = 0 \<and> (y mod 100 \<noteq> 0 \<or> y mod 400 = 0))"

definition days_in_month :: "nat \<Rightarrow> nat \<Rightarrow> nat" where
  "days_in_month y m =
     (if m = 2 then (if is_leap y then 29 else 28)
      else if m = 4 \<or> m = 6 \<or> m = 9 \<or> m = 11 then 30 else 31)"

text \<open>
  \<open>datetime.strptime(s, "%d/%m/%Y").date()\<close> on the strings that reach it here (digits
  and slashes): day and month of one or two digits, a year of four, each in range
  (day 1 to 31, month 1 to 12, year from 1), and the day within the month. The result is
  (year, month, day); every failure is a \<open>ValueError\<close>.
\<close>

definition strptime :: "string \<Rightarrow> error + (nat \<times> nat \<times> nat)" where
  "strptime s =
     (case split_on CHR ''/'' s of
        [dd, mm, yy] \<Rightarrow>
          (let d = int_of_digits dd; m = int_of_digits mm; y = int_of_digits yy
           in if list_all isdigit (dd @ mm @ yy)
                 \<and> length dd \<in> {1, 2} \<and> length mm \<in> {1, 2} \<and> length yy = 4
                 \<and> 1 \<le> d \<and> d \<le> 31 \<and> 1 \<le> m \<and> m \<le> 12 \<and> 1 \<le> y
                 \<and> d \<le> days_in_month y m
              then Inr (y, m, d) else Inl ValueError)
      | _ \<Rightarrow> Inl ValueError)"

definition digit_chr :: "nat \<Rightarrow> char" where
  "digit_chr n = char_of (48 + n mod 10)"

text \<open>\<open>'%0*d' % (w, n)\<close>: at least \<open>w\<close> digits, zero-padded.\<close>

fun zpad :: "nat \<Rightarrow> nat \<Rightarrow> string" where
  "zpad 0 n = (if n = 0 then [] else zpad 0 (n div 10) @ [digit_chr n])"
| "zpad (Suc w) n = zpad w (n div 10) @ [digit_chr n]"

definition isoformat :: "nat \<times> nat \<times> nat \<Rightarrow> string" where
  "isoformat ymd = (case ymd of (y, m, d) \<Rightarrow> zpad 4 y @ ''-'' @ zpad 2 m @ ''-'' @ zpad 2 d)"

section \<open>The parser\<close>

record Registro =
  data :: string
  tipo :: string
  valor :: rat
  descricao :: "string option"

text \<open>
  \<open>m.group(n)\<close> is \<open>None\<close> for a group that took no part in the match, and calling a
  string method on it raises \<open>AttributeError\<close>.
\<close>

definition group :: "caps \<Rightarrow> nat \<Rightarrow> error + string" where
  "group m n = (case m n of None \<Rightarrow> Inl AttributeError | Some g \<Rightarrow> Inr g)"

definition bind :: "error + 'a \<Rightarrow> ('a \<Rightarrow> error + 'b) \<Rightarrow> error + 'b" where
  "bind x f = (case x of Inl e \<Rightarrow> Inl e | Inr v \<Rightarrow> f v)"

definition tentar_extrair_comando :: "string \<Rightarrow> error + Registro option" where
  "tentar_extrair_comando txt =
     (case search PADRAO (strip txt) of
        None \<Rightarrow> Inr None
      | Some m \<Rightarrow>
          bind (group m 1) (\<lambda>g1.
          bind (py_float (replace CHR '','' ''.'' (replace CHR ''.'' [] g1))) (\<lambda>v.
          bind (group m 3) (\<lambda>g3.
          bind (strptime (replace CHR ''-'' ''/'' g3)) (\<lambda>d.
          bind (group m 2) (\<lambda>g2.
            Inr (Some \<lparr>data = isoformat d,
                       tipo = map lower g2,
                       valor = v,
                       descricao =
                         (case m 4 of None \<Rightarrow> None
                          | Some g4 \<Rightarrow> if g4 = [] then None else Some (strip g4))\<rparr>)))))))"

section \<open>The store\<close>

text \<open>
  The table \<open>transacoes\<close>: a \<open>Registro\<close> with its \<open>id\<close>, in insertion order, and the
  counter that \<open>AUTOINCREMENT\<close> keeps in \<open>sqlite_sequence\<close> (the largest id ever given
  out). The identifiers of the rows are unbounded integers: that the engine runs out of
  them at \<open>2^63 - 1\<close> is not modelled.
\<close>

record Linha = Registro +
  id_col :: int

record db =
  transacoes :: "Linha list"
  sqlite_sequence :: int

definition vazio :: db where
  "vazio = \<lparr>transacoes = [], sqlite_sequence = 0\<rparr>"

text \<open>
  \<open>AUTOINCREMENT\<close>: one more than the largest id the table holds or ever held.
\<close>

definition proximo_id :: "db \<Rightarrow> int" where
  "proximo_id s = max (sqlite_sequence s) (foldr max (map id_col (transacoes s)) 0) + 1"

text \<open>
  \<open>INSERT INTO transacoes (data, tipo, valor, descricao) VALUES (?,?,?,?)\<close>. The
  \<open>CHECK\<close> on \<open>tipo\<close> makes the engine raise \<open>IntegrityError\<close>, which \<open>inserir\<close> lets
  through.
\<close>

definition inserir :: "Registro \<Rightarrow> db \<Rightarrow> error + db" where
  "inserir r s =
     (if tipo r = ''faturamento'' \<or> tipo r = ''despesa''
      then Inr \<lparr>transacoes = transacoes s @
                   [\<lparr>data = data r, tipo = tipo r, valor = valor r,
                     descricao = descricao r, id_col = proximo_id s\<rparr>],
                sqlite_sequence = proximo_id s\<rparr>
      else Inl IntegrityError)"

text \<open>
  \<open>DELETE FROM transacoes WHERE id = ?\<close>; the result is \<open>cursor.rowcount > 0\<close> and the
  store after the commit. \<open>reg_id\<close> is a Python \<open>int\<close>, which has no bound, and the
  driver binds it as a signed 64-bit \<open>INTEGER\<close>: for a value outside that range
  \<open>execute\<close> raises \<open>OverflowError\<close>, which \<open>deletar\<close> lets through, and nothing is
  deleted.
\<close>

definition deletar :: "int \<Rightarrow> db \<Rightarrow> error + bool \<times> db" where
  "deletar reg_id s =
     (if reg_id < - (2 ^ 63) \<or> 2 ^ 63 \<le> reg_id then Inl OverflowError
      else
        (let rowcount = length (filter (\<lambda>l. id_col l = reg_id) (transacoes s))
         in Inr (rowcount > 0,
                 s\<lparr>transacoes := filter (\<lambda>l. id_col l \<noteq> reg_id) (transacoes s)\<rparr>)))"

subsection \<open>The date conditions shared by the three queries\<close>

text \<open>
  SQLite's \<open>date()\<close> is a function of the engine, not of this module: the queries take it
  as the parameter \<open>date\<close>, from the stored text to a date text or \<open>NULL\<close> (\<open>None\<close>).
  A comparison with \<open>NULL\<close> is not true, so such a row fails every condition; two texts
  compare code point by code point.
\<close>

fun sql_ge :: "string option \<Rightarrow> string \<Rightarrow> bool" where
  "sql_ge None p = False"
| "sql_ge (Some d) p = (p \<le> d)"

fun sql_le :: "string option \<Rightarrow> string \<Rightarrow> bool" where
  "sql_le None p = False"
| "sql_le (Some d) p = (d \<le> p)"

text \<open>
  \<^verbatim>\<open>if data_inicio: conditions.append("date(data) >= ?")\<close> and the same for
  \<open>data_fim\<close>: \<open>None\<close> and the empty string are both falsy and add no condition.
\<close>

definition conditions ::
  "(string \<Rightarrow> string option) \<Rightarrow> string option \<Rightarrow> string option \<Rightarrow> (Linha \<Rightarrow> bool) list" where
  "conditions date data_inicio data_fim =
     (case data_inicio of
        None \<Rightarrow> []
      | Some p \<Rightarrow> if p = [] then [] else [\<lambda>l. sql_ge (date (data l)) p]) @
     (case data_fim of
        None \<Rightarrow> []
      | Some p \<Rightarrow> if p = [] then [] else [\<lambda>l. sql_le (date (data l)) p])"

text \<open>The rows that satisfy \<open>" AND ".join(conditions)\<close> (all of them when there is none).\<close>

definition selecionadas ::
  "(string \<Rightarrow> string option) \<Rightarrow> db \<Rightarrow> string option \<Rightarrow> string option \<Rightarrow> Linha list" where
  "selecionadas date s data_inicio data_fim =
     filter (\<lambda>l. list_all (\<lambda>cond. cond l) (conditions date data_inicio data_fim))
       (transacoes s)"

subsection \<open>The three queries\<close>

text \<open>
  What \<open>SUM(valor)\<close> can be: a double (its exact value, the two zeros taken as one), an
  infinity, or \<open>NULL\<close>, which is what the engine returns when the sum is not a number.
\<close>

datatype real_sql = Nulo | MenosInf | Num rat | MaisInf

text \<open>
  \<open>SUM\<close> is the engine's, like \<open>date()\<close>: which doubles it adds in which order, and how
  it rounds, is not written in this module. The queries take it as the parameter
  \<open>soma\<close>, from the rows of a group (as the table holds them) to the value of
  \<open>SUM(valor)\<close> over them. No exact arithmetic is assumed of it.
\<close>

type_synonym agregado = "Linha list \<Rightarrow> real_sql"

text \<open>\<open>v or 0.0\<close>: \<open>None\<close> and zero are falsy and become \<open>0.0\<close>.\<close>

definition or_zero :: "real_sql \<Rightarrow> real_sql" where
  "or_zero v = (if v = Nulo \<or> v = Num 0 then Num 0 else v)"

text \<open>
  \<open>SELECT tipo, SUM(valor) FROM transacoes [WHERE ...] GROUP BY tipo\<close>, collected into
  a dict.
\<close>

definition totais ::
  "(string \<Rightarrow> string option) \<Rightarrow> agregado \<Rightarrow> db \<Rightarrow> string option \<Rightarrow> string option
     \<Rightarrow> (string \<rightharpoonup> real_sql)" where
  "totais date soma s data_inicio data_fim =
     (let rows = selecionadas date s data_inicio data_fim
      in map_of
           (map (\<lambda>t. (t, or_zero (soma (filter (\<lambda>l. tipo l = t) rows))))
              (remdups (map tipo rows))))"

text \<open>
  A row of the frame that \<open>listar_transacoes\<close> returns. The column \<open>data\<close> is kept as
  the stored text; its conversion by \<open>parse_dates\<close> is the frame library's.
\<close>

record LinhaDF =
  df_id :: int
  df_data :: string
  df_tipo :: string
  df_valor :: rat
  df_descricao :: string

definition coalesce :: "string option \<Rightarrow> string" where
  "coalesce d = (case d of None \<Rightarrow> [] | Some t \<Rightarrow> t)"

definition projetar :: "Linha \<Rightarrow> LinhaDF" where
  "projetar l =
     \<lparr>df_id = id_col l, df_data = data l, df_tipo = tipo l, df_valor = valor l,
      df_descricao = coalesce (descricao l)\<rparr>"

text \<open>
  \<open>SELECT id, data, tipo, valor, COALESCE(descricao,'') ... ORDER BY date(data) DESC,
  id DESC\<close>. \<open>NULL\<close> sorts below every text, so last in descending order.
\<close>

definition listar_transacoes ::
  "(string \<Rightarrow> string option) \<Rightarrow> db \<Rightarrow> string option \<Rightarrow> string option \<Rightarrow> LinhaDF list" where
  "listar_transacoes date s data_inicio data_fim =
     map projetar
       (rev (sort_key (\<lambda>l. (date (data l), id_col l))
          (selecionadas date s data_inicio data_fim)))"

text \<open>
  The order of \<open>ORDER BY\<close> on such values: \<open>NULL\<close> below every number, the infinities at
  the two ends of the numbers.
\<close>

fun ordem_sql :: "real_sql \<Rightarrow> nat \<times> rat" where
  "ordem_sql Nulo = (0, 0)"
| "ordem_sql MenosInf = (1, 0)"
| "ordem_sql (Num v) = (2, v)"
| "ordem_sql MaisInf = (3, 0)"

text \<open>
  \<open>SELECT descricao, SUM(valor) AS total FROM transacoes WHERE tipo='faturamento'
  [AND ...] GROUP BY descricao ORDER BY total DESC\<close>. Rows without a description form
  the group \<open>None\<close>. SQL leaves the order among equal totals to the engine: it is the
  parameter \<open>desempate\<close>, the rank the engine gives a group among those of its total
  (the larger rank first).
\<close>

definition faturamento_por_descricao ::
  "(string \<Rightarrow> string option) \<Rightarrow> agregado \<Rightarrow> (string option \<times> real_sql \<Rightarrow> nat)
     \<Rightarrow> db \<Rightarrow> string option \<Rightarrow> string option \<Rightarrow> (string option \<times> real_sql) list" where
  "faturamento_por_descricao date soma desempate s data_inicio data_fim =
     (let rows = filter (\<lambda>l. tipo l = ''faturamento'')
                   (selecionadas date s data_inicio data_fim)
      in rev (sort_key (\<lambda>g. (ordem_sql (snd g), desempate g))
           (map (\<lambda>d. (d, soma (filter (\<lambda>l. descricao l = d) rows)))
              (remdups (map descricao rows)))))"

text \<open>
  The store of the scenario: revenue 100 on 2024-01-01 and revenue 50 on 2024-01-02,
  both described as A, and an expense of 30 on 2024-01-01 without description.
\<close>

definition cenario :: db where
  "cenario =
     \<lparr>transacoes =
        [\<lparr>data = ''2024-01-01'', tipo = ''faturamento'', valor = 100,
          descricao = Some ''A'', id_col = 1\<rparr>,
         \<lparr>data = ''2024-01-02'', tipo = ''faturamento'', valor = 50,
          descricao = Some ''A'', id_col = 2\<rparr>,
         \<lparr>data = ''2024-01-01'', tipo = ''despesa'', valor = 30,
          descricao = None, id_col = 3\<rparr>],
      sqlite_sequence = 3\<rparr>"



section \<open>Analyses of a pattern used in the proofs\<close>

text \<open>The groups that every match of a pattern sets.\<close>

fun grupos :: "regex \<Rightarrow> nat list" where
  "grupos (Lit p) = []"
| "grupos (Rep cs lo hi g) = []"
| "grupos (Opt r) = []"
| "grupos (Cat []) = []"
| "grupos (Cat (r # rs)) = grupos r @ grupos (Cat rs)"
| "grupos (Alt a b) = filter (\<lambda>n. n \<in> set (grupos b)) (grupos a)"
| "grupos (Grp n r) = n # grupos r"
| "grupos Eol = []"

text \<open>
  The dash read as a slash, as \<open>replace('-', '/')\<close> does character by character, and the
  patterns that cannot tell the two apart.
\<close>

definition barra :: "char \<Rightarrow> char" where
  "barra c = (if c = CHR ''-'' then CHR ''/'' else c)"

fun indiferente :: "regex \<Rightarrow> bool" where
  "indiferente (Lit p) = (CHR ''/'' \<notin> set p \<and> CHR ''-'' \<notin> set p)"
| "indiferente (Rep cs lo hi g) = (cset_ok cs CHR ''/'' = cset_ok cs CHR ''-'')"
| "indiferente (Opt r) = indiferente r"
| "indiferente (Cat []) = True"
| "indiferente (Cat (r # rs)) = (indiferente r \<and> indiferente (Cat rs))"
| "indiferente (Alt a b) = (indiferente a \<and> indiferente b)"
| "indiferente (Grp n r) = indiferente r"
| "indiferente Eol = True"

definition barra_st :: "string \<times> caps \<Rightarrow> string \<times> caps" where
  "barra_st st = (map barra (fst st), map_option (map barra) \<circ> snd st)"

text \<open>
  The first way a pattern matches, and the first continuation that succeeds among the
  ways its head matched: what the backtracking matcher returns.
\<close>

definition primeiro :: "regex \<Rightarrow> string \<times> caps \<Rightarrow> (string \<times> caps) option" where
  "primeiro r st = (case ms r st of [] \<Rightarrow> None | x # xs \<Rightarrow> Some x)"

fun tenta :: "regex list \<Rightarrow> (string \<times> caps) list \<Rightarrow> (string \<times> caps) option" where
  "tenta rs [] = None"
| "tenta rs (x # xs) = (case primeiro (Cat rs) x of None \<Rightarrow> tenta rs xs | Some y \<Rightarrow> Some y)"

section \<open>Properties of the store\<close>

text \<open>
  The inclusive date range, written out: a bound that is absent or empty admits every
  row; a bound that is given admits the rows whose \<open>date(data)\<close> is a text on the right
  side of it (so never a row whose \<open>date(data)\<close> is \<open>NULL\<close>).
\<close>

abbreviation (input) no_intervalo ::
  "(string \<Rightarrow> string option) \<Rightarrow> string option \<Rightarrow> string option \<Rightarrow> Linha \<Rightarrow> bool" where
  "no_intervalo date a b l \<equiv>
     (case a of None \<Rightarrow> True
      | Some lo \<Rightarrow> lo = [] \<or> (case date (data l) of None \<Rightarrow> False | Some d \<Rightarrow> lo \<le> d))
     \<and> (case b of None \<Rightarrow> True
      | Some hi \<Rightarrow> hi = [] \<or> (case date (data l) of None \<Rightarrow> False | Some d \<Rightarrow> d \<le> hi))"

lemma selecionadas_filter:
  "selecionadas date s a b = filter (no_intervalo date a b) (transacoes s)"
  unfolding selecionadas_def conditions_def
  by (rule filter_cong) (auto split: option.splits)

lemma selecionadas_sem_filtro [simp]:
  "selecionadas date s None None = transacoes s"
  by (simp add: selecionadas_def conditions_def)

lemma selecionadas_subset: "set (selecionadas date s a b) \<subseteq> set (transacoes s)"
  by (auto simp: selecionadas_def)

lemma set_listar:
  "set (listar_transacoes date s a b) = projetar ` set (selecionadas date s a b)"
  by (simp add: listar_transacoes_def)

lemma filter_listar:
  "filter (\<lambda>r. df_id r = n) (listar_transacoes date s a b) =
   map projetar (rev (sort_key (\<lambda>l. (date (data l), id_col l))
     (filter (\<lambda>l. id_col l = n) (selecionadas date s a b))))"
  by (simp add: listar_transacoes_def filter_map o_def filter_sort projetar_def
      flip: rev_filter)

lemma foldr_max_ge: "l \<in> set ls \<Longrightarrow> id_col l \<le> foldr max (map id_col ls) (0::int)"
  by (induction ls) auto

lemma proximo_id_novo: "l \<in> set (transacoes s) \<Longrightarrow> id_col l < proximo_id s"
  using foldr_max_ge [of l "transacoes s"] by (simp add: proximo_id_def)

lemma filtro_id_novo: "filter (\<lambda>l. id_col l = proximo_id s) (transacoes s) = []"
  by (auto simp: filter_empty_conv dest: proximo_id_novo)

lemma or_zero_Num [simp]: "or_zero (Num v) = Num v"
  by (simp add: or_zero_def)



lemma proximo_id_positivo: "0 < proximo_id s"
proof -
  have "(0::int) \<le> foldr max (map id_col ls) 0" for ls :: "Linha list"
    by (induction ls) auto
  then have "0 \<le> max (sqlite_sequence s) (foldr max (map id_col (transacoes s)) 0)"
    by (simp add: le_max_iff_disj)
  then show ?thesis
    by (simp add: proximo_id_def)
qed

lemma ordem_desc:
  "sorted_wrt (\<lambda>x y. k y \<le> k x) (rev (sort_key k xs))"
proof -
  have "sorted (map k (sort_key k xs))" by simp
  then have "sorted_wrt (\<lambda>x y. k x \<le> k y) (sort_key k xs)"
    by (simp add: sorted_map)
  then show ?thesis by (simp add: sorted_wrt_rev)
qed


text \<open>
  C3. A record whose \<open>tipo\<close> is one of the two kinds is accepted by \<open>inserir\<close>, and
  \<open>listar_transacoes\<close> without date bounds then shows exactly one row under the
  identifier the insert gave out: it carries the inserted \<open>data\<close>, \<open>tipo\<close> and \<open>valor\<close>
  and the inserted description (the empty text when there was none). No row had that
  identifier before, and the listing grew by that one row.
\<close>

theorem ida_e_volta:
  assumes "tipo r = ''faturamento'' \<or> tipo r = ''despesa''"
  shows "\<exists>s'. inserir r s = Inr s'
    \<and> filter (\<lambda>l. df_id l = proximo_id s) (listar_transacoes date s' None None) =
        [\<lparr>df_id = proximo_id s, df_data = data r, df_tipo = tipo r, df_valor = valor r,
          df_descricao = (case descricao r of None \<Rightarrow> [] | Some d \<Rightarrow> d)\<rparr>]
    \<and> filter (\<lambda>l. df_id l = proximo_id s) (listar_transacoes date s None None) = []
    \<and> length (listar_transacoes date s' None None) =
        Suc (length (listar_transacoes date s None None))"
  using assms
  by (simp add: inserir_def filter_listar filtro_id_novo projetar_def coalesce_def)
    (simp add: listar_transacoes_def)

theorem ida_e_volta_witness:
  "\<exists>s'. inserir \<lparr>data = ''2024-05-12'', tipo = ''despesa'', valor = 10.5,
                  descricao = None\<rparr> vazio = Inr s'
    \<and> filter (\<lambda>l. df_id l = 1) (listar_transacoes Some s' None None) =
        [\<lparr>df_id = 1, df_data = ''2024-05-12'', df_tipo = ''despesa'', df_valor = 10.5,
          df_descricao = []\<rparr>]
    \<and> length (listar_transacoes Some s' None None) = 1"
  using ida_e_volta [of "\<lparr>data = ''2024-05-12'', tipo = ''despesa'', valor = 10.5,
      descricao = None\<rparr>" vazio Some]
  by (simp add: proximo_id_def vazio_def listar_transacoes_def)

text \<open>
  C6 (as amended). For an identifier within the signed 64-bit range \<open>deletar\<close> returns,
  and its result is true exactly when the table held a row with that identifier.
  Afterwards no row with that identifier is in the table or in any listing; for an
  identifier the table does not hold (one never given out, such as 999999) the result
  is false and the store is unchanged. For the identifier of a row just inserted the
  result is true: the row was listed before and is not listed after. For an identifier
  outside that range \<open>deletar\<close> does not return false: it raises \<open>OverflowError\<close>.
\<close>

theorem deletar_informa:
  "(- (2 ^ 63) \<le> i \<and> i < 2 ^ 63 \<longrightarrow>
      (\<exists>b s'. deletar i s = Inr (b, s')
         \<and> b = (i \<in> id_col ` set (transacoes s))
         \<and> i \<notin> id_col ` set (transacoes s')
         \<and> i \<notin> df_id ` set (listar_transacoes date s' ini fim)
         \<and> (i \<notin> id_col ` set (transacoes s) \<longrightarrow> \<not> b \<and> s' = s)))
   \<and> (inserir r s = Inr s1 \<and> proximo_id s < 2 ^ 63 \<longrightarrow>
        (\<exists>s2. deletar (proximo_id s) s1 = Inr (True, s2)
           \<and> proximo_id s \<in> df_id ` set (listar_transacoes date s1 None None)
           \<and> proximo_id s \<notin> df_id ` set (listar_transacoes date s2 None None)))
   \<and> (i < - (2 ^ 63) \<or> 2 ^ 63 \<le> i \<longrightarrow> deletar i s = Inl OverflowError)"
proof -
  let ?apos = "\<lambda>i s. s\<lparr>transacoes := filter (\<lambda>l. id_col l \<noteq> i) (transacoes s)\<rparr>"
  have d: "deletar i s = Inr (i \<in> id_col ` set (transacoes s), ?apos i s)"
    if "- (2 ^ 63) \<le> i" "i < 2 ^ 63" for i s
    using that by (auto simp: deletar_def Let_def filter_empty_conv)
  have l: "i \<notin> df_id ` set (listar_transacoes date (?apos i s) ini fim)" for i s ini fim
    using selecionadas_subset [of date "?apos i s" ini fim]
    by (auto simp: set_listar projetar_def)
  have u: "?apos i s = s" if "i \<notin> id_col ` set (transacoes s)" for i s
  proof -
    from that have "filter (\<lambda>l. id_col l \<noteq> i) (transacoes s) = transacoes s"
      by (auto simp: filter_id_conv)
    then show ?thesis by simp
  qed
  have c1: "- (2 ^ 63) \<le> i \<and> i < 2 ^ 63 \<longrightarrow>
      (\<exists>b s'. deletar i s = Inr (b, s')
         \<and> b = (i \<in> id_col ` set (transacoes s))
         \<and> i \<notin> id_col ` set (transacoes s')
         \<and> i \<notin> df_id ` set (listar_transacoes date s' ini fim)
         \<and> (i \<notin> id_col ` set (transacoes s) \<longrightarrow> \<not> b \<and> s' = s))"
  proof
    assume r: "- (2 ^ 63) \<le> i \<and> i < 2 ^ 63"
    have "i \<notin> id_col ` set (transacoes (?apos i s))" by auto
    with d [of i s] r l [of i s ini fim] u [of i s] show "\<exists>b s'. deletar i s = Inr (b, s')
         \<and> b = (i \<in> id_col ` set (transacoes s))
         \<and> i \<notin> id_col ` set (transacoes s')
         \<and> i \<notin> df_id ` set (listar_transacoes date s' ini fim)
         \<and> (i \<notin> id_col ` set (transacoes s) \<longrightarrow> \<not> b \<and> s' = s)"
      by blast
  qed
  have c2: "inserir r s = Inr s1 \<and> proximo_id s < 2 ^ 63 \<longrightarrow>
        (\<exists>s2. deletar (proximo_id s) s1 = Inr (True, s2)
           \<and> proximo_id s \<in> df_id ` set (listar_transacoes date s1 None None)
           \<and> proximo_id s \<notin> df_id ` set (listar_transacoes date s2 None None))"
  proof
    assume h: "inserir r s = Inr s1 \<and> proximo_id s < 2 ^ 63"
    then have m: "proximo_id s \<in> id_col ` set (transacoes s1)"
      by (auto simp: inserir_def image_iff split: if_splits)
    then have p: "proximo_id s \<in> df_id ` set (listar_transacoes date s1 None None)"
      by (auto simp: set_listar projetar_def image_iff)
    have "- (2 ^ 63) \<le> proximo_id s"
      using proximo_id_positivo [of s] by simp
    with h d [of "proximo_id s" s1] m
    have "deletar (proximo_id s) s1 = Inr (True, ?apos (proximo_id s) s1)"
      by simp
    with p l [of "proximo_id s" s1 None None]
    show "\<exists>s2. deletar (proximo_id s) s1 = Inr (True, s2)
           \<and> proximo_id s \<in> df_id ` set (listar_transacoes date s1 None None)
           \<and> proximo_id s \<notin> df_id ` set (listar_transacoes date s2 None None)"
      by blast
  qed
  have c3: "i < - (2 ^ 63) \<or> 2 ^ 63 \<le> i \<longrightarrow> deletar i s = Inl OverflowError"
    by (simp add: deletar_def)
  from c1 c2 c3 show ?thesis by blast
qed

theorem deletar_informa_witness:
  "deletar 999999 cenario = Inr (False, cenario)
   \<and> (\<exists>s'. deletar 2 cenario = Inr (True, s')
         \<and> 2 \<notin> df_id ` set (listar_transacoes Some s' None None))
   \<and> (\<exists>s1 s2. inserir \<lparr>data = ''2024-01-03'', tipo = ''despesa'', valor = 7,
                         descricao = None\<rparr> cenario = Inr s1
         \<and> proximo_id cenario = 4
         \<and> deletar 4 s1 = Inr (True, s2)
         \<and> 4 \<in> df_id ` set (listar_transacoes Some s1 None None)
         \<and> 4 \<notin> df_id ` set (listar_transacoes Some s2 None None))
   \<and> deletar (2 ^ 63) cenario = Inl OverflowError"
proof -
  let ?r = "\<lparr>data = ''2024-01-03'', tipo = ''despesa'', valor = 7, descricao = None\<rparr>"
  obtain s1 where s1: "inserir ?r cenario = Inr s1"
    by (simp add: inserir_def)
  have n: "proximo_id cenario = 4"
    by (simp add: proximo_id_def cenario_def)
  have i: "999999 \<notin> id_col ` set (transacoes cenario)"
    by (simp add: cenario_def)
  have j: "2 \<in> id_col ` set (transacoes cenario)"
    by (simp add: cenario_def)
  from deletar_informa [of 999999 cenario Some None None ?r s1] i
  have c1: "deletar 999999 cenario = Inr (False, cenario)" by auto
  from deletar_informa [of 2 cenario Some None None ?r s1] j s1 n
  have c2: "(\<exists>s'. deletar 2 cenario = Inr (True, s')
         \<and> 2 \<notin> df_id ` set (listar_transacoes Some s' None None))
      \<and> (\<exists>s2. deletar 4 s1 = Inr (True, s2)
         \<and> 4 \<in> df_id ` set (listar_transacoes Some s1 None None)
         \<and> 4 \<notin> df_id ` set (listar_transacoes Some s2 None None))"
    by auto
  from deletar_informa [of "2 ^ 63" cenario Some None None ?r s1]
  have c3: "deletar (2 ^ 63) cenario = Inl OverflowError" by simp
  from c1 c2 c3 s1 n show ?thesis by blast
qed

theorem deletar_informa_counterexample:
  "2 ^ 63 \<notin> id_col ` set (transacoes cenario)
   \<and> sqlite_sequence cenario < 2 ^ 63
   \<and> deletar (2 ^ 63) cenario = Inl OverflowError
   \<and> \<not> (\<exists>s'. deletar (2 ^ 63) cenario = Inr (False, s'))"
  by (simp add: deletar_def cenario_def)



text \<open>
  C8. For every store and every optional inclusive date range, \<open>listar_transacoes\<close>
  returns the rows in the range, each once and with an absent description replaced by
  the empty text, in descending order of \<open>date(data)\<close> and, where that is equal, with the
  larger identifier first.
\<close>

theorem listar_ordenado:
  "mset (listar_transacoes date s a b) =
     image_mset
       (\<lambda>l. \<lparr>df_id = id_col l, df_data = data l, df_tipo = tipo l, df_valor = valor l,
              df_descricao = (case descricao l of None \<Rightarrow> [] | Some d \<Rightarrow> d)\<rparr>)
       (filter_mset (no_intervalo date a b) (mset (transacoes s)))
   \<and> sorted_wrt
       (\<lambda>x y. date (df_data y) < date (df_data x)
              \<or> (date (df_data y) = date (df_data x) \<and> df_id y \<le> df_id x))
       (listar_transacoes date s a b)"
proof -
  have p: "projetar = (\<lambda>l. \<lparr>df_id = id_col l, df_data = data l, df_tipo = tipo l,
      df_valor = valor l, df_descricao = (case descricao l of None \<Rightarrow> [] | Some d \<Rightarrow> d)\<rparr>)"
    by (simp add: projetar_def coalesce_def fun_eq_iff)
  have m: "mset (listar_transacoes date s a b) =
      image_mset projetar (filter_mset (no_intervalo date a b) (mset (transacoes s)))"
    by (simp add: listar_transacoes_def selecionadas_filter)
  let ?k = "\<lambda>l. (date (data l), id_col l)"
  have "sorted_wrt (\<lambda>x y. ?k y \<le> ?k x) (rev (sort_key ?k (selecionadas date s a b)))"
    by (rule ordem_desc)
  then have "sorted_wrt (\<lambda>x y. date (data y) < date (data x)
        \<or> (date (data y) = date (data x) \<and> id_col y \<le> id_col x))
      (rev (sort_key ?k (selecionadas date s a b)))"
    by (rule sorted_wrt_mono_rel [rotated]) (auto simp: less_eq_prod_def)
  then have o: "sorted_wrt
       (\<lambda>x y. date (df_data y) < date (df_data x)
              \<or> (date (df_data y) = date (df_data x) \<and> df_id y \<le> df_id x))
       (listar_transacoes date s a b)"
    by (simp add: listar_transacoes_def sorted_wrt_map projetar_def)
  from m o show ?thesis unfolding p by simp
qed

theorem listar_ordenado_witness:
  "listar_transacoes Some cenario None None =
     [\<lparr>df_id = 2, df_data = ''2024-01-02'', df_tipo = ''faturamento'', df_valor = 50,
       df_descricao = ''A''\<rparr>,
      \<lparr>df_id = 3, df_data = ''2024-01-01'', df_tipo = ''despesa'', df_valor = 30,
       df_descricao = []\<rparr>,
      \<lparr>df_id = 1, df_data = ''2024-01-01'', df_tipo = ''faturamento'', df_valor = 100,
       df_descricao = ''A''\<rparr>]
   \<and> sorted_wrt
       (\<lambda>x y. Some (df_data y) < Some (df_data x)
              \<or> (Some (df_data y) = Some (df_data x) \<and> df_id y \<le> df_id x))
       (listar_transacoes Some cenario None None)"
proof -
  have "listar_transacoes Some cenario None None =
     [\<lparr>df_id = 2, df_data = ''2024-01-02'', df_tipo = ''faturamento'', df_valor = 50,
       df_descricao = ''A''\<rparr>,
      \<lparr>df_id = 3, df_data = ''2024-01-01'', df_tipo = ''despesa'', df_valor = 30,
       df_descricao = []\<rparr>,
      \<lparr>df_id = 1, df_data = ''2024-01-01'', df_tipo = ''faturamento'', df_valor = 100,
       df_descricao = ''A''\<rparr>]"
    by code_simp
  with listar_ordenado [of Some cenario None None] show ?thesis by blast
qed



text \<open>
  C10. In each of the three queries the empty text as \<open>data_inicio\<close> or as \<open>data_fim\<close>
  gives, on every store and whatever the other bound, the result that omitting the
  bound gives.
\<close>

theorem vazio_como_omitido:
  "totais date soma s (Some []) b = totais date soma s None b
   \<and> totais date soma s a (Some []) = totais date soma s a None
   \<and> listar_transacoes date s (Some []) b = listar_transacoes date s None b
   \<and> listar_transacoes date s a (Some []) = listar_transacoes date s a None
   \<and> faturamento_por_descricao date soma desempate s (Some []) b =
       faturamento_por_descricao date soma desempate s None b
   \<and> faturamento_por_descricao date soma desempate s a (Some []) =
       faturamento_por_descricao date soma desempate s a None"
  by (simp add: totais_def listar_transacoes_def faturamento_por_descricao_def
      selecionadas_def conditions_def)

section \<open>Properties of the parser\<close>

subsection \<open>What a match of \<open>PADRAO\<close> guarantees\<close>

lemma ms_grupos:
  "x \<in> set (ms r st) \<Longrightarrow>
     (\<forall>n. snd st n \<noteq> None \<longrightarrow> snd x n \<noteq> None) \<and> (\<forall>n \<in> set (grupos r). snd x n \<noteq> None)"
proof (induction r st arbitrary: x rule: ms.induct)
  case (5 r rs st)
  from "5.prems" obtain y where m: "y \<in> set (ms r st)"
    and e: "x \<in> set (ms (Cat rs) y)"
    by auto
  from "5.IH"(1) [OF m] "5.IH"(2) [OF m e] show ?case
    by auto
qed (auto simp: Let_def simp del: upt_Suc split: if_splits)

lemma search_ms:
  "search r s = Some m \<Longrightarrow> \<exists>t u s'. s = u @ t \<and> (s', m) \<in> set (ms r (t, Map.empty))"
proof (induction s)
  case Nil
  then show ?case by (auto split: list.splits)
next
  case (Cons x xs)
  show ?case
  proof (cases "ms r (x # xs, Map.empty)")
    case Nil
    with Cons.prems have "search r xs = Some m" by simp
    from Cons.IH [OF this] obtain t u s'
      where "xs = u @ t" "(s', m) \<in> set (ms r (t, Map.empty))"
      by blast
    then have "x # xs = (x # u) @ t \<and> (s', m) \<in> set (ms r (t, Map.empty))" by simp
    then show ?thesis by blast
  next
    case (Cons a as)
    with Cons.prems
    have "x # xs = [] @ (x # xs) \<and> (fst a, m) \<in> set (ms r (x # xs, Map.empty))"
      by (cases a) auto
    then show ?thesis by blast
  qed
qed

lemma grupos_PADRAO: "set (grupos PADRAO) = {1, 2, 3}"
  by (auto simp: PADRAO_def sp1_def)

text \<open>Groups 1 to 3 take part in every match, so no \<open>AttributeError\<close> can arise.\<close>

lemma search_PADRAO_grupos:
  assumes "search PADRAO s = Some m"
  shows "\<exists>g1 g2 g3. m 1 = Some g1 \<and> m 2 = Some g2 \<and> m 3 = Some g3"
proof -
  from search_ms [OF assms] obtain t s' where "(s', m) \<in> set (ms PADRAO (t, Map.empty))"
    by blast
  from ms_grupos [OF this] have "\<forall>n \<in> {1, 2, 3}. m n \<noteq> None"
    unfolding grupos_PADRAO by simp
  then show ?thesis by auto
qed

lemma py_float_erro: "py_float z = Inl e \<Longrightarrow> e = ValueError"
  by (auto simp: py_float_def Let_def split: list.splits if_splits)

lemma strptime_erro: "strptime z = Inl e \<Longrightarrow> e = ValueError"
  by (auto simp: strptime_def Let_def split: list.splits if_splits)

lemma extrai_registro:
  assumes "search PADRAO (strip txt) = Some m"
    and "m 1 = Some g1" and "m 3 = Some g3"
    and "py_float (replace CHR '','' ''.'' (replace CHR ''.'' [] g1)) = Inr v"
    and "strptime (replace CHR ''-'' ''/'' g3) = Inr ymd"
  shows "\<exists>r. tentar_extrair_comando txt = Inr (Some r) \<and> valor r = v \<and> data r = isoformat ymd"
proof -
  from search_PADRAO_grupos [OF assms(1)] obtain g2 where "m 2 = Some g2"
    by blast
  with assms show ?thesis
    by (simp add: tentar_extrair_comando_def bind_def group_def)
qed

lemma strip_sublist: "\<exists>a b. txt = a @ strip txt @ b"
proof -
  let ?t = "rev (dropWhile isspace (rev txt))"
  have 1: "txt = ?t @ rev (takeWhile isspace (rev txt))"
    by (metis rev_append rev_rev_ident takeWhile_dropWhile_id)
  have 2: "?t = takeWhile isspace ?t @ strip txt"
    by (simp add: strip_def)
  from 1 2 have "txt = takeWhile isspace ?t @ strip txt @ rev (takeWhile isspace (rev txt))"
    by (metis append.assoc)
  then show ?thesis by blast
qed

lemma ms_Cat_Lit:
  assumes "ms (Cat (Lit p # rs)) (t, c) \<noteq> []"
  shows "map lower (take (length p) t) = map lower p"
  using assms by (auto split: if_splits)

lemma search_PADRAO_registre:
  assumes "search PADRAO s = Some m"
  shows "sublist ''registre'' (map lower s)"
proof -
  from search_ms [OF assms] obtain t u s' where s: "s = u @ t"
    and x: "(s', m) \<in> set (ms PADRAO (t, Map.empty))"
    by blast
  from x have "ms PADRAO (t, Map.empty) \<noteq> []" by auto
  then have "map lower (take (length ''registre'') t) = map lower ''registre''"
    unfolding PADRAO_def by (rule ms_Cat_Lit)
  moreover have "map lower ''registre'' = ''registre''"
    by (simp add: lower_def)
  ultimately have l: "map lower (take (length ''registre'') t) = ''registre''"
    by (rule trans)
  have "map lower s = map lower u @ map lower (take (length ''registre'') t)
      @ map lower (drop (length ''registre'') t)"
    unfolding s by (simp del: list.size flip: map_append)
  with l show ?thesis by (metis sublist_appendI)
qed

subsection \<open>Dash and slash are interchangeable\<close>

lemma replace_barra: "replace CHR ''-'' ''/'' s = map barra s"
  by (induction s) (auto simp: replace_def barra_def)

lemma isspace_barra [simp]: "isspace (barra c) = isspace c"
  by (simp add: barra_def isspace_def)

lemma isdigit_barra [simp]: "isdigit (barra c) = isdigit c"
  by (simp add: barra_def isdigit_def)

lemma isdigit_barra_id: "isdigit c \<Longrightarrow> barra c = c"
  by (auto simp: barra_def isdigit_def)

lemma lower_of_char:
  "of_char (lower c) = (let n = (of_char c :: nat)
      in if (65 \<le> n \<and> n \<le> 90) \<or> (192 \<le> n \<and> n \<le> 222 \<and> n \<noteq> 215) then n + 32 else n)"
  by (auto simp: lower_def Let_def)

lemma lower_barra_chars:
  "lower c = CHR ''/'' \<longleftrightarrow> c = CHR ''/''" "lower c = CHR ''-'' \<longleftrightarrow> c = CHR ''-''"
proof -
  have "lower c = CHR ''/'' \<Longrightarrow> c = CHR ''/''"
  proof -
    assume "lower c = CHR ''/''"
    then have "(of_char (lower c) :: nat) = 47" by simp
    then have "(of_char c :: nat) = of_char CHR ''/''"
      by (simp add: lower_of_char Let_def split: if_splits)
    then show ?thesis by (simp only: of_char_eq_iff)
  qed
  moreover have "lower CHR ''/'' = CHR ''/''" by (simp add: lower_def)
  ultimately show "lower c = CHR ''/'' \<longleftrightarrow> c = CHR ''/''" by auto
  have "lower c = CHR ''-'' \<Longrightarrow> c = CHR ''-''"
  proof -
    assume "lower c = CHR ''-''"
    then have "(of_char (lower c) :: nat) = 45" by simp
    then have "(of_char c :: nat) = of_char CHR ''-''"
      by (simp add: lower_of_char Let_def split: if_splits)
    then show ?thesis by (simp only: of_char_eq_iff)
  qed
  moreover have "lower CHR ''-'' = CHR ''-''" by (simp add: lower_def)
  ultimately show "lower c = CHR ''-'' \<longleftrightarrow> c = CHR ''-''" by auto
qed

lemma lower_barra: "lower (barra c) = barra (lower c)"
  by (auto simp: barra_def lower_barra_chars)

lemma lower_barra_eq:
  assumes "b \<noteq> CHR ''/''" and "b \<noteq> CHR ''-''"
  shows "(lower (barra a) = lower b) = (lower a = lower b)"
proof (cases "a = CHR ''-''")
  case True
  have "lower b \<noteq> CHR ''/''" "lower b \<noteq> CHR ''-''"
    using assms by (simp_all add: lower_barra_chars)
  moreover have "lower (barra a) = CHR ''/''" "lower a = CHR ''-''"
    using True by (simp_all add: barra_def lower_def)
  ultimately show ?thesis by metis
next
  case False
  then show ?thesis by (simp add: barra_def)
qed

lemma map_lower_barra_eq:
  "CHR ''/'' \<notin> set p \<Longrightarrow> CHR ''-'' \<notin> set p \<Longrightarrow>
     (map lower (map barra t) = map lower p) = (map lower t = map lower p)"
proof (induction t arbitrary: p)
  case Nil
  then show ?case by simp
next
  case (Cons a t)
  then show ?case by (cases p) (auto simp: lower_barra_eq)
qed

lemma atom_barra: "atom_ok a CHR ''/'' = atom_ok a CHR ''-'' \<Longrightarrow> atom_ok a (barra c) = atom_ok a c"
  by (simp add: barra_def)

lemma cset_barra:
  "cset_ok cs CHR ''/'' = cset_ok cs CHR ''-'' \<Longrightarrow> cset_ok cs (barra c) = cset_ok cs c"
  by (simp add: barra_def)

lemma run_barra:
  assumes "cset_ok cs CHR ''/'' = cset_ok cs CHR ''-''"
  shows "run cs hi (map barra s) = run cs hi s"
proof -
  have "cset_ok cs \<circ> barra = cset_ok cs"
    using cset_barra [OF assms] by (simp add: fun_eq_iff)
  then show ?thesis
    by (simp add: run_def takeWhile_map)
qed

lemma ms_barra:
  "indiferente r \<Longrightarrow> ms r (barra_st st) = map barra_st (ms r st)"
proof (induction r st rule: ms.induct)
  case (1 p s c)
  then have "(map lower (map barra (take (length p) s)) = map lower p)
      = (map lower (take (length p) s) = map lower p)"
    using map_lower_barra_eq [of p "take (length p) s"] by simp
  then have "(map lower (take (length p) (map barra s)) = map lower p)
      = (map lower (take (length p) s) = map lower p)"
    by (simp only: take_map)
  then show ?case
    by (simp only: barra_st_def ms.simps fst_conv snd_conv drop_map list.map split: if_splits)
      blast
next
  case (2 cs lo hi greedy s c)
  then show ?case
    by (simp add: barra_st_def run_barra Let_def drop_map o_def del: upt_Suc)
next
  case (3 r st)
  then show ?case by simp
next
  case (4 st)
  then show ?case by simp
next
  case (5 r rs st)
  from "5.prems" have i: "indiferente r" "indiferente (Cat rs)" by simp_all
  have "ms (Cat (r # rs)) (barra_st st) = concat (map (ms (Cat rs)) (map barra_st (ms r st)))"
    using "5.IH"(1) [OF i(1)] by simp
  also have "\<dots> = concat (map (\<lambda>y. map barra_st (ms (Cat rs) y)) (ms r st))"
    using "5.IH"(2) [OF _ i(2)] by (simp add: o_def cong: map_cong)
  also have "\<dots> = map barra_st (ms (Cat (r # rs)) st)"
    by (simp add: map_concat o_def)
  finally show ?case .
next
  case (6 a b st)
  then show ?case by simp
next
  case (7 n r s c)
  from "7.prems" have i: "indiferente r" by simp
  have b: "barra_st (s, c) = (map barra s, map_option (map barra) \<circ> c)"
    by (simp add: barra_st_def)
  show ?case
    unfolding b ms.simps "7.IH" [OF i, unfolded b]
    by (auto simp: barra_st_def fun_eq_iff take_map)
next
  case (8 s c)
  have "(barra z = CHR 0x0A) = (z = CHR 0x0A)" for z
    by (simp add: barra_def)
  then have "(map barra s = [CHR 0x0A]) = (s = [CHR 0x0A])"
    by (cases s) auto
  then show ?case by (simp add: barra_st_def)
qed


lemma indiferente_PADRAO: "indiferente PADRAO"
  by (simp add: PADRAO_def sp1_def isdigit_def isspace_def lower_def)

lemma primeiro_barra:
  "(case map barra_st l of [] \<Rightarrow> map_option (\<lambda>m. map_option (map barra) \<circ> m) a
      | y # ys \<Rightarrow> Some (snd y)) =
   map_option (\<lambda>m. map_option (map barra) \<circ> m) (case l of [] \<Rightarrow> a | y # ys \<Rightarrow> Some (snd y))"
  by (cases l) (simp_all add: barra_st_def)

lemma search_barra:
  assumes "indiferente r"
  shows "search r (map barra s) = map_option (\<lambda>m. map_option (map barra) \<circ> m) (search r s)"
proof (induction s)
  case Nil
  let ?l = "ms r ([], Map.empty)"
  have e: "?l = map barra_st ?l"
    using ms_barra [OF assms, of "([], Map.empty)"] by (simp add: barra_st_def)
  show ?case
  proof (cases ?l)
    case Nil
    then show ?thesis by simp
  next
    case (Cons y ys)
    with e have "y # ys = barra_st y # map barra_st ys" by simp
    then have "y = barra_st y" by simp
    then have "snd y = snd (barra_st y)" by (rule arg_cong)
    then have f: "map_option (map barra) \<circ> snd y = snd y"
      by (simp only: barra_st_def snd_conv)
    from Cons have s: "search r [] = Some (snd y)"
      by (cases y) simp
    have "map_option (\<lambda>m. map_option (map barra) \<circ> m) (search r []) =
        Some (map_option (map barra) \<circ> snd y)"
      unfolding s by (simp only: option.map)
    also have "\<dots> = Some (snd y)"
      using f by (rule arg_cong)
    also have "\<dots> = search r (map barra [])"
      unfolding list.map s ..
    finally show ?thesis by (rule sym)
  qed
next
  case (Cons x xs)
  let ?l = "ms r (x # xs, Map.empty)"
  have e: "ms r (barra x # map barra xs, Map.empty) = map barra_st ?l"
    using ms_barra [OF assms, of "(x # xs, Map.empty)"] by (simp add: barra_st_def)
  have "search r (map barra (x # xs)) =
      (case map barra_st ?l of [] \<Rightarrow> search r (map barra xs) | y # ys \<Rightarrow> Some (snd y))"
    by (auto simp: e split: list.splits)
  also have "\<dots> = map_option (\<lambda>m. map_option (map barra) \<circ> m)
      (case ?l of [] \<Rightarrow> search r xs | y # ys \<Rightarrow> Some (snd y))"
    unfolding Cons.IH by (rule primeiro_barra)
  also have "\<dots> = map_option (\<lambda>m. map_option (map barra) \<circ> m) (search r (x # xs))"
    by (auto split: list.splits)
  finally show ?case .
qed

lemma strip_barra: "strip (map barra s) = map barra (strip s)"
proof -
  have "isspace \<circ> barra = isspace" by (simp add: fun_eq_iff)
  then show ?thesis
    by (simp add: strip_def dropWhile_map rev_map)
qed


lemma replace_map_barra:
  "c \<noteq> CHR ''-'' \<Longrightarrow> c \<noteq> CHR ''/'' \<Longrightarrow> map barra new = new \<Longrightarrow>
     replace c new (map barra g) = map barra (replace c new g)"
  by (induction g) (auto simp: replace_def barra_def)

lemma map_barra_digitos: "list_all isdigit xs \<Longrightarrow> map barra xs = xs"
  by (induction xs) (auto simp: isdigit_barra_id)

lemma takeWhile_isdigit_barra: "takeWhile isdigit (map barra z) = takeWhile isdigit z"
proof -
  have "isdigit \<circ> barra = isdigit" by (simp add: fun_eq_iff)
  then have "takeWhile isdigit (map barra z) = map barra (takeWhile isdigit z)"
    by (simp add: takeWhile_map)
  moreover have "list_all isdigit (takeWhile isdigit z)"
    by (induction z) auto
  ultimately show ?thesis by (simp add: map_barra_digitos)
qed

lemma dropWhile_isdigit_barra: "dropWhile isdigit (map barra z) = map barra (dropWhile isdigit z)"
proof -
  have "isdigit \<circ> barra = isdigit" by (simp add: fun_eq_iff)
  then show ?thesis by (simp add: dropWhile_map)
qed

lemma list_all_isdigit_barra: "list_all isdigit (map barra xs) = list_all isdigit xs"
  by (induction xs) auto

lemma py_float_barra: "py_float (map barra z) = py_float z"
proof (cases "dropWhile isdigit z")
  case Nil
  then have "dropWhile isdigit (map barra z) = dropWhile isdigit z"
    by (simp only: dropWhile_isdigit_barra list.map)
  then show ?thesis
    by (simp only: py_float_def takeWhile_isdigit_barra)
next
  case (Cons d fp)
  have "(barra d = CHR ''.'') = (d = CHR ''.'')" by (simp add: barra_def)
  with Cons show ?thesis
    by (auto simp: py_float_def Let_def takeWhile_isdigit_barra dropWhile_isdigit_barra
        list_all_isdigit_barra map_barra_digitos)
qed

lemma barra_barra [simp]: "barra (barra c) = barra c"
  by (simp add: barra_def)

lemma tentar_barra:
  "tentar_extrair_comando (map barra txt) =
     map_sum id
       (map_option (\<lambda>r. r\<lparr>tipo := map barra (tipo r),
                            descricao := map_option (map barra) (descricao r)\<rparr>))
       (tentar_extrair_comando txt)"
proof (cases "search PADRAO (strip txt)")
  case None
  then show ?thesis
    by (simp add: tentar_extrair_comando_def strip_barra search_barra [OF indiferente_PADRAO])
next
  case (Some m)
  from search_PADRAO_grupos [OF Some] obtain g1 g2 g3
    where g: "m 1 = Some g1" "m 2 = Some g2" "m 3 = Some g3"
    by blast
  have f: "py_float (replace CHR '','' ''.'' (replace CHR ''.'' [] (map barra g1))) =
      py_float (replace CHR '','' ''.'' (replace CHR ''.'' [] g1))"
    by (simp add: replace_map_barra barra_def py_float_barra)
  have d: "strptime (replace CHR ''-'' ''/'' (map barra g3)) =
      strptime (replace CHR ''-'' ''/'' g3)"
    by (simp add: replace_barra o_def)
  have l: "map lower (map barra g2) = map barra (map lower g2)"
    by (simp add: lower_barra)
  have e: "(case map_option (map barra) (m 4) of None \<Rightarrow> None
        | Some g4 \<Rightarrow> if g4 = [] then None else Some (strip g4)) =
      map_option (map barra)
        (case m 4 of None \<Rightarrow> None | Some g4 \<Rightarrow> if g4 = [] then None else Some (strip g4))"
    by (simp add: strip_barra split: option.splits)
  show ?thesis
    unfolding tentar_extrair_comando_def strip_barra search_barra [OF indiferente_PADRAO] Some
    using g f d l e
    by (simp add: bind_def group_def split: sum.splits)
qed

subsection \<open>Sentences in canonical form\<close>

lemma primeiro_concat:
  "(case concat (map (ms (Cat rs)) xs) of [] \<Rightarrow> None | y # ys \<Rightarrow> Some y) = tenta rs xs"
proof (induction xs)
  case Nil
  then show ?case by simp
next
  case (Cons x xs)
  then show ?case
    by (cases "ms (Cat rs) x") (simp_all add: primeiro_def)
qed

lemma primeiro_Cat_Nil: "primeiro (Cat []) st = Some st"
  by (simp add: primeiro_def)

lemma primeiro_Cat_Cons: "primeiro (Cat (r # rs)) st = tenta rs (ms r st)"
  by (simp add: primeiro_def primeiro_concat)

lemma search_primeiro:
  "search r (x # xs) =
     (case primeiro r (x # xs, Map.empty) of None \<Rightarrow> search r xs | Some y \<Rightarrow> Some (snd y))"
  by (auto simp: primeiro_def split: list.splits)

lemma lower_Char:
  "lower (Char b0 b1 b2 b3 b4 b5 b6 b7) =
     (let n = (of_char (Char b0 b1 b2 b3 b4 b5 b6 b7) :: nat)
      in if (65 \<le> n \<and> n \<le> 90) \<or> (192 \<le> n \<and> n \<le> 222 \<and> n \<noteq> 215)
         then char_of (n + 32) else Char b0 b1 b2 b3 b4 b5 b6 b7)"
  by (rule lower_def)

lemma isspace_Char:
  "isspace (Char b0 b1 b2 b3 b4 b5 b6 b7) =
     (let n = (of_char (Char b0 b1 b2 b3 b4 b5 b6 b7) :: nat)
      in (9 \<le> n \<and> n \<le> 13) \<or> (28 \<le> n \<and> n \<le> 32) \<or> n = 133 \<or> n = 160)"
  by (rule isspace_def)

lemma isdigit_Char:
  "isdigit (Char b0 b1 b2 b3 b4 b5 b6 b7) =
     (let n = (of_char (Char b0 b1 b2 b3 b4 b5 b6 b7) :: nat) in 48 \<le> n \<and> n \<le> 57)"
  by (rule isdigit_def)

lemma digito_lower: "isdigit c \<Longrightarrow> lower c = c"
  by (simp add: isdigit_def lower_def Let_def)

lemma digito_nao_espaco: "isdigit c \<Longrightarrow> isspace c = False"
  by (simp add: isdigit_def isspace_def Let_def)

lemma digito_neq:
  "isdigit c \<Longrightarrow> (c = CHR ''n'') = False"
  "isdigit c \<Longrightarrow> (c = CHR ''r'') = False"
  "isdigit c \<Longrightarrow> (c = CHR ''/'') = False"
  "isdigit c \<Longrightarrow> (c = CHR ''-'') = False"
  "isdigit c \<Longrightarrow> (c = CHR ''.'') = False"
  "isdigit c \<Longrightarrow> (c = CHR '','') = False"
  by (auto simp: isdigit_def Let_def)

lemma run_prefixo:
  assumes "list_all (cset_ok cs) xs" and "\<not> cset_ok cs y"
  shows "run cs None (xs @ y # rest) = length xs"
proof -
  have "takeWhile (cset_ok cs) (xs @ y # rest) = xs"
    using assms by (induction xs) auto
  then show ?thesis by (simp add: run_def)
qed

lemma passo:
  assumes "ms r st = x # xs" and "primeiro (Cat rs) x = Some y"
  shows "primeiro (Cat (r # rs)) st = Some y"
  using assms by (simp add: primeiro_Cat_Cons)

lemma rev_upt_Suc: "lo \<le> n \<Longrightarrow> rev [lo..<Suc n] = n # rev [lo..<n]"
  by simp

lemma ms_Grp_Rep:
  assumes "list_all (cset_ok cs) (x # xs)" and "\<not> cset_ok cs y"
  shows "\<exists>zs. ms (Grp n (Rep cs 1 None True)) (x # xs @ y # rest, c) =
     (y # rest, c(n \<mapsto> x # xs)) # zs"
proof -
  have r: "run cs None (x # xs @ y # rest) = Suc (length xs)"
    using run_prefixo [OF assms, of rest] by simp
  have "ms (Rep cs 1 None True) (x # xs @ y # rest, c) =
      map (\<lambda>k. (drop k (x # xs @ y # rest), c)) (rev [1..<Suc (Suc (length xs))])"
    by (simp only: ms.simps r Let_def if_True)
  also have "\<dots> = (y # rest, c) #
      map (\<lambda>k. (drop k (x # xs @ y # rest), c)) (rev [1..<Suc (length xs)])"
    by (simp add: rev_upt_Suc del: upt_Suc)
  finally show ?thesis
    by (simp del: upt_Suc)
qed

lemma passo_Grp_Rep:
  assumes "list_all (cset_ok cs) (x # xs)" and "\<not> cset_ok cs y"
    and "primeiro (Cat rs) (y # rest, c(n \<mapsto> x # xs)) = Some z"
  shows "primeiro (Cat (Grp n (Rep cs 1 None True) # rs)) (x # xs @ y # rest, c) = Some z"
proof -
  from ms_Grp_Rep [OF assms(1,2)] obtain zs
    where "ms (Grp n (Rep cs 1 None True)) (x # xs @ y # rest, c) =
      (y # rest, c(n \<mapsto> x # xs)) # zs"
    by blast
  then show ?thesis using assms(3) by (rule passo)
qed

lemma cauda_data:
  assumes "isdigit d1" "isdigit d2" "isdigit m1" "isdigit m2"
    and "isdigit y1" "isdigit y2" "isdigit y3" "isdigit y4"
  shows "ms (Grp 3 (Cat
        [Rep (In [ADigit]) 1 (Some 2) True,
         Rep (In [AChar CHR ''/'', AChar CHR ''-'']) 1 (Some 1) True,
         Rep (In [ADigit]) 1 (Some 2) True,
         Rep (In [AChar CHR ''/'', AChar CHR ''-'']) 1 (Some 1) True,
         Rep (In [ADigit]) 4 (Some 4) True]))
      ([d1, d2, CHR ''/'', m1, m2, CHR ''/'', y1, y2, y3, y4], c) =
     [([], c(3 \<mapsto> [d1, d2, CHR ''/'', m1, m2, CHR ''/'', y1, y2, y3, y4]))]"
  using assms
  by (simp add: lower_Char isspace_Char isdigit_Char digito_lower digito_nao_espaco digito_neq
        run_def Let_def)


lemma cauda_fim:
  "primeiro (Cat
      [Opt (Cat [sp1, Lit ''com'', sp1, Lit ''descricao'', sp1, Grp 4 (Rep Any 1 None False)]),
       Rep (In [ASpace, AChar CHR ''.'']) 0 None True,
       Eol]) ([], c) = Some ([], c)"
  by (simp add: sp1_def primeiro_Cat_Nil primeiro_Cat_Cons run_def)

lemma cauda_fat:
  assumes "isdigit d1" "isdigit d2" "isdigit m1" "isdigit m2"
    and "isdigit y1" "isdigit y2" "isdigit y3" "isdigit y4"
  shows "primeiro (Cat
     [sp1, Lit ''de'', sp1,
      Grp 2 (Alt (Lit ''faturamento'') (Lit ''despesa'')),
      Rep (In [AChar CHR ''s'']) 0 (Some 1) True,
      sp1, Lit ''em'', sp1,
      Grp 3 (Cat
        [Rep (In [ADigit]) 1 (Some 2) True,
         Rep (In [AChar CHR ''/'', AChar CHR ''-'']) 1 (Some 1) True,
         Rep (In [ADigit]) 1 (Some 2) True,
         Rep (In [AChar CHR ''/'', AChar CHR ''-'']) 1 (Some 1) True,
         Rep (In [ADigit]) 4 (Some 4) True]),
      Opt (Cat [sp1, Lit ''com'', sp1, Lit ''descricao'', sp1, Grp 4 (Rep Any 1 None False)]),
      Rep (In [ASpace, AChar CHR ''.'']) 0 None True,
      Eol])
     ('' de faturamento em '' @ [d1, d2, CHR ''/'', m1, m2, CHR ''/'', y1, y2, y3, y4], c) =
    Some ([], c(2 \<mapsto> ''faturamento'',
                3 \<mapsto> [d1, d2, CHR ''/'', m1, m2, CHR ''/'', y1, y2, y3, y4]))"
  using assms
  by (simp add: primeiro_Cat_Cons primeiro_Cat_Nil sp1_def
      lower_Char isspace_Char isdigit_Char digito_lower digito_nao_espaco digito_neq
      run_def Let_def)


lemma cauda_desp:
  assumes "isdigit d1" "isdigit d2" "isdigit m1" "isdigit m2"
    and "isdigit y1" "isdigit y2" "isdigit y3" "isdigit y4"
  shows "primeiro (Cat
     [sp1, Lit ''de'', sp1,
      Grp 2 (Alt (Lit ''faturamento'') (Lit ''despesa'')),
      Rep (In [AChar CHR ''s'']) 0 (Some 1) True,
      sp1, Lit ''em'', sp1,
      Grp 3 (Cat
        [Rep (In [ADigit]) 1 (Some 2) True,
         Rep (In [AChar CHR ''/'', AChar CHR ''-'']) 1 (Some 1) True,
         Rep (In [ADigit]) 1 (Some 2) True,
         Rep (In [AChar CHR ''/'', AChar CHR ''-'']) 1 (Some 1) True,
         Rep (In [ADigit]) 4 (Some 4) True]),
      Opt (Cat [sp1, Lit ''com'', sp1, Lit ''descricao'', sp1, Grp 4 (Rep Any 1 None False)]),
      Rep (In [ASpace, AChar CHR ''.'']) 0 None True,
      Eol])
     ('' de despesa em '' @ [d1, d2, CHR ''/'', m1, m2, CHR ''/'', y1, y2, y3, y4], c) =
    Some ([], c(2 \<mapsto> ''despesa'',
                3 \<mapsto> [d1, d2, CHR ''/'', m1, m2, CHR ''/'', y1, y2, y3, y4]))"
  using assms
  by (simp add: primeiro_Cat_Cons primeiro_Cat_Nil sp1_def
      lower_Char isspace_Char isdigit_Char digito_lower digito_nao_espaco digito_neq
      run_def Let_def)

lemma cauda:
  assumes "k = ''faturamento'' \<or> k = ''despesa''"
    and "isdigit d1" "isdigit d2" "isdigit m1" "isdigit m2"
    and "isdigit y1" "isdigit y2" "isdigit y3" "isdigit y4"
  shows "primeiro (Cat
     [sp1, Lit ''de'', sp1,
      Grp 2 (Alt (Lit ''faturamento'') (Lit ''despesa'')),
      Rep (In [AChar CHR ''s'']) 0 (Some 1) True,
      sp1, Lit ''em'', sp1,
      Grp 3 (Cat
        [Rep (In [ADigit]) 1 (Some 2) True,
         Rep (In [AChar CHR ''/'', AChar CHR ''-'']) 1 (Some 1) True,
         Rep (In [ADigit]) 1 (Some 2) True,
         Rep (In [AChar CHR ''/'', AChar CHR ''-'']) 1 (Some 1) True,
         Rep (In [ADigit]) 4 (Some 4) True]),
      Opt (Cat [sp1, Lit ''com'', sp1, Lit ''descricao'', sp1, Grp 4 (Rep Any 1 None False)]),
      Rep (In [ASpace, AChar CHR ''.'']) 0 None True,
      Eol])
     (CHR '' '' # ''de '' @ k @ '' em '' @ [d1, d2, CHR ''/'', m1, m2, CHR ''/'', y1, y2, y3, y4], c) =
    Some ([], c(2 \<mapsto> k, 3 \<mapsto> [d1, d2, CHR ''/'', m1, m2, CHR ''/'', y1, y2, y3, y4]))"
  using assms(1) cauda_fat [OF assms(2-9), of c] cauda_desp [OF assms(2-9), of c]
  by auto

lemma frase_primeiro:
  assumes "isdigit d0" "list_all isdigit a'"
    and "k = ''faturamento'' \<or> k = ''despesa''"
    and "isdigit d1" "isdigit d2" "isdigit m1" "isdigit m2"
    and "isdigit y1" "isdigit y2" "isdigit y3" "isdigit y4"
  shows "primeiro PADRAO
      (''registre '' @ d0 # a' @ CHR '' '' # ''de '' @ k @ '' em ''
         @ [d1, d2, CHR ''/'', m1, m2, CHR ''/'', y1, y2, y3, y4], Map.empty) =
     Some ([], [1 \<mapsto> d0 # a', 2 \<mapsto> k,
                3 \<mapsto> [d1, d2, CHR ''/'', m1, m2, CHR ''/'', y1, y2, y3, y4]])"
    and "primeiro PADRAO
      (''registre no banco de dados '' @ d0 # a' @ CHR '' '' # ''de '' @ k @ '' em ''
         @ [d1, d2, CHR ''/'', m1, m2, CHR ''/'', y1, y2, y3, y4], Map.empty) =
     Some ([], [1 \<mapsto> d0 # a', 2 \<mapsto> k,
                3 \<mapsto> [d1, d2, CHR ''/'', m1, m2, CHR ''/'', y1, y2, y3, y4]])"
proof -
  let ?D = "[d1, d2, CHR ''/'', m1, m2, CHR ''/'', y1, y2, y3, y4]"
  let ?T = "''de '' @ k @ '' em '' @ ?D"
  let ?A = "d0 # a' @ CHR '' '' # ?T"
  have l: "list_all (cset_ok (In [ADigit, AChar CHR ''.'', AChar CHR '',''])) (d0 # a')"
    using assms(1,2) by (simp add: list_all_iff)
  have n: "\<not> cset_ok (In [ADigit, AChar CHR ''.'', AChar CHR '','']) CHR '' ''"
    by (simp add: isdigit_Char lower_Char)
  note t = cauda [OF assms(3-11), of "[1 \<mapsto> d0 # a']"]
  note g = passo_Grp_Rep [OF l n t]
  have e4: "ms (Opt (Cat [Lit ''r$'', Rep (In [ASpace]) 0 None True])) (?A, Map.empty) =
      [(?A, Map.empty)]"
    using assms(1) by (simp add: lower_Char digito_lower digito_neq)
  have e3: "ms sp1 (CHR '' '' # ?A, Map.empty) = [(?A, Map.empty)]"
    using assms(1) by (simp add: sp1_def run_def isspace_Char digito_nao_espaco)
  have e2: "ms (Opt (Cat [sp1, Lit ''no'', sp1, Lit ''banco'', sp1, Lit ''de'', sp1,
        Lit ''dados''])) (CHR '' '' # ?A, Map.empty) = [(CHR '' '' # ?A, Map.empty)]"
    using assms(1)
    by (simp add: sp1_def run_def isspace_Char lower_Char digito_nao_espaco digito_lower
        digito_neq)
  have e1: "ms (Lit ''registre'') (''registre '' @ ?A, Map.empty) =
      [(CHR '' '' # ?A, Map.empty)]"
    by (simp add: lower_Char)
  show "primeiro PADRAO (''registre '' @ ?A, Map.empty) =
      Some ([], [1 \<mapsto> d0 # a', 2 \<mapsto> k, 3 \<mapsto> ?D])"
    unfolding PADRAO_def
    by (rule passo [OF e1 passo [OF e2 passo [OF e3 passo [OF e4 g]]]])
  have f2: "ms (Opt (Cat [sp1, Lit ''no'', sp1, Lit ''banco'', sp1, Lit ''de'', sp1,
        Lit ''dados''])) ('' no banco de dados '' @ ?A, Map.empty) =
      [(CHR '' '' # ?A, Map.empty), ('' no banco de dados '' @ ?A, Map.empty)]"
    using assms(1)
    by (simp add: sp1_def run_def isspace_Char lower_Char digito_nao_espaco)
  have f1: "ms (Lit ''registre'') (''registre no banco de dados '' @ ?A, Map.empty) =
      [('' no banco de dados '' @ ?A, Map.empty)]"
    by (simp add: lower_Char)
  show "primeiro PADRAO (''registre no banco de dados '' @ ?A, Map.empty) =
      Some ([], [1 \<mapsto> d0 # a', 2 \<mapsto> k, 3 \<mapsto> ?D])"
    unfolding PADRAO_def
    by (rule passo [OF f1 passo [OF f2 passo [OF e3 passo [OF e4 g]]]])
qed

lemma strip_id:
  assumes "s \<noteq> []" and "\<not> isspace (hd s)" and "\<not> isspace (last s)"
  shows "strip s = s"
proof -
  from assms(1,3) have "dropWhile isspace (rev s) = rev s"
    by (cases "rev s") (auto simp: last_rev hd_rev)
  moreover from assms(1,2) have "dropWhile isspace s = s"
    by (cases s) auto
  ultimately show ?thesis by (simp add: strip_def)
qed

lemma replace_ausente: "c \<notin> set s \<Longrightarrow> replace c new s = s"
  by (induction s) (auto simp: replace_def)

lemma digitos_sem:
  assumes "list_all isdigit a"
  shows "CHR ''.'' \<notin> set a" and "CHR '','' \<notin> set a" and "CHR ''-'' \<notin> set a"
  using assms by (auto simp: list_all_iff isdigit_def Let_def)

lemma py_float_digitos:
  assumes "a \<noteq> []" and "list_all isdigit a"
  shows "py_float (replace CHR '','' ''.'' (replace CHR ''.'' [] a)) = Inr (of_nat (int_of_digits a))"
proof -
  from assms(2) have t: "takeWhile isdigit a = a" "dropWhile isdigit a = []"
    by (simp_all add: list_all_iff)
  have "py_float a = Inr (of_nat (int_of_digits a))"
    unfolding py_float_def t Let_def using assms(1) by simp
  moreover from digitos_sem [OF assms(2)]
  have "replace CHR '','' ''.'' (replace CHR ''.'' [] a) = a"
    by (simp add: replace_ausente)
  ultimately show ?thesis by simp
qed

lemma frase_registro:
  assumes "p = ''registre '' \<or> p = ''registre no banco de dados ''"
    and "a \<noteq> []" and "list_all isdigit a"
    and "k = ''faturamento'' \<or> k = ''despesa''"
    and "list_all isdigit [d1, d2, m1, m2, y1, y2, y3, y4]"
    and "strptime [d1, d2, CHR ''/'', m1, m2, CHR ''/'', y1, y2, y3, y4] = Inr ymd"
  shows "tentar_extrair_comando
      (p @ a @ '' de '' @ k @ '' em '' @ [d1, d2, CHR ''/'', m1, m2, CHR ''/'', y1, y2, y3, y4]) =
     Inr (Some \<lparr>data = isoformat ymd, tipo = k, valor = of_nat (int_of_digits a),
                descricao = None\<rparr>)"
proof -
  let ?D = "[d1, d2, CHR ''/'', m1, m2, CHR ''/'', y1, y2, y3, y4]"
  let ?S = "p @ a @ '' de '' @ k @ '' em '' @ ?D"
  from assms(2) obtain d0 a' where a: "a = d0 # a'" by (cases a) auto
  with assms(3) have d: "isdigit d0" "list_all isdigit a'" by simp_all
  from assms(5) have dd: "isdigit d1" "isdigit d2" "isdigit m1" "isdigit m2"
      "isdigit y1" "isdigit y2" "isdigit y3" "isdigit y4"
    by simp_all
  note f = frase_primeiro [OF d assms(4) dd]
  let ?m = "[1 \<mapsto> a, 2 \<mapsto> k, 3 \<mapsto> ?D]"
  have pr: "primeiro PADRAO (?S, Map.empty) = Some ([], ?m)"
    using assms(1) f by (auto simp: a)
  have ne: "?S \<noteq> []" "\<not> isspace (hd ?S)" "\<not> isspace (last ?S)"
    using assms(1) dd(8) by (auto simp: isspace_Char digito_nao_espaco)
  then obtain x xs where sx: "?S = x # xs" by (cases ?S) auto
  have "search PADRAO ?S = Some ?m"
    unfolding sx search_primeiro using pr [unfolded sx] by simp
  then have s: "search PADRAO (strip ?S) = Some ?m"
    by (simp only: strip_id [OF ne])
  have r: "replace CHR ''-'' ''/'' ?D = ?D"
    using dd by (simp add: replace_def digito_neq)
  have l: "map lower k = k"
    using assms(4) by (auto simp: lower_Char)
  show ?thesis
    unfolding tentar_extrair_comando_def s
    by (simp add: group_def bind_def py_float_digitos [OF assms(2,3)] r assms(6) l)
qed

subsection \<open>The claims about the parser\<close>

text \<open>
  C1 (as amended). A sentence that the pattern matches and whose date slot is not a
  calendar date does not give the no-match result: \<open>tentar_extrair_comando\<close> raises
  \<open>ValueError\<close>, from the conversion of the number or, when that succeeds, from the
  conversion of the date.
\<close>

theorem data_invalida_levanta_erro:
  assumes "search PADRAO (strip txt) = Some m"
    and "m 3 = Some g3"
    and "strptime (replace CHR ''-'' ''/'' g3) = Inl e"
  shows "tentar_extrair_comando txt = Inl ValueError"
proof -
  from search_PADRAO_grupos [OF assms(1)] obtain g1 g2 where g: "m 1 = Some g1" "m 2 = Some g2"
    by blast
  from assms(3) have e: "e = ValueError" by (rule strptime_erro)
  show ?thesis
  proof (cases "py_float (replace CHR '','' ''.'' (replace CHR ''.'' [] g1))")
    case (Inl e')
    then have "e' = ValueError" by (rule py_float_erro)
    with Inl assms g show ?thesis
      by (simp add: tentar_extrair_comando_def bind_def group_def)
  next
    case (Inr v)
    with assms g e show ?thesis
      by (simp add: tentar_extrair_comando_def bind_def group_def)
  qed
qed

theorem data_invalida_levanta_erro_witness:
  "map_option (\<lambda>m. m 3) (search PADRAO (strip ''registre 150 de faturamento em 31/02/2024''))
     = Some (Some ''31/02/2024'')
   \<and> strptime (replace CHR ''-'' ''/'' ''31/02/2024'') = Inl ValueError
   \<and> tentar_extrair_comando ''registre 150 de faturamento em 31/02/2024'' = Inl ValueError"
proof -
  let ?txt = "''registre 150 de faturamento em 31/02/2024''"
  have s: "map_option (\<lambda>m. m 3) (search PADRAO (strip ?txt)) = Some (Some ''31/02/2024'')"
    by code_simp
  then obtain m where m: "search PADRAO (strip ?txt) = Some m" and g: "m 3 = Some ''31/02/2024''"
    by auto
  have d: "strptime (replace CHR ''-'' ''/'' ''31/02/2024'') = Inl ValueError"
    by code_simp
  from data_invalida_levanta_erro [OF m g d] s d show ?thesis
    by simp
qed

theorem data_invalida_counterexample:
  "map_option (\<lambda>m. (m 1, m 2, m 3, m 4))
       (search PADRAO (strip ''registre 150 de faturamento em 31/02/2024''))
     = Some (Some ''150'', Some ''faturamento'', Some ''31/02/2024'', None)
   \<and> tentar_extrair_comando ''registre 150 de faturamento em 31/02/2024'' \<noteq> Inr None"
proof -
  have "map_option (\<lambda>m. (m 1, m 2, m 3, m 4))
       (search PADRAO (strip ''registre 150 de faturamento em 31/02/2024''))
     = Some (Some ''150'', Some ''faturamento'', Some ''31/02/2024'', None)"
    by code_simp
  moreover have
    "tentar_extrair_comando ''registre 150 de faturamento em 31/02/2024'' = Inl ValueError"
    by code_simp
  ultimately show ?thesis by simp
qed

text \<open>
  C4. In a sentence that the pattern matches and whose date slot is a calendar date, the
  amount of the returned record is the number read from group 1 after every dot is
  removed and every comma turned into a dot. So the slot \<open>1.234,56\<close> gives 1234.56,
  \<open>150\<close> gives 150 and \<open>10,5\<close> gives 10.5 (as exact decimals).
\<close>

theorem valor_normalizado:
  assumes "search PADRAO (strip txt) = Some m"
    and "m 1 = Some g1" and "m 3 = Some g3"
    and "strptime (replace CHR ''-'' ''/'' g3) = Inr ymd"
  shows "(py_float (replace CHR '','' ''.'' (replace CHR ''.'' [] g1)) = Inr v \<longrightarrow>
           (\<exists>r. tentar_extrair_comando txt = Inr (Some r) \<and> valor r = v))
    \<and> (g1 = ''1.234,56'' \<longrightarrow>
           (\<exists>r. tentar_extrair_comando txt = Inr (Some r) \<and> valor r = 1234.56))
    \<and> (g1 = ''150'' \<longrightarrow>
           (\<exists>r. tentar_extrair_comando txt = Inr (Some r) \<and> valor r = 150))
    \<and> (g1 = ''10,5'' \<longrightarrow>
           (\<exists>r. tentar_extrair_comando txt = Inr (Some r) \<and> valor r = 10.5))"
proof -
  have a: "py_float (replace CHR '','' ''.'' (replace CHR ''.'' [] ''1.234,56'')) = Inr 1234.56"
    by code_simp
  have b: "py_float (replace CHR '','' ''.'' (replace CHR ''.'' [] ''150'')) = Inr 150"
    by code_simp
  have c: "py_float (replace CHR '','' ''.'' (replace CHR ''.'' [] ''10,5'')) = Inr 10.5"
    by code_simp
  from a b c extrai_registro [OF assms(1,2,3) _ assms(4)] show ?thesis
    by blast
qed

theorem valor_normalizado_witness:
  "map_option (\<lambda>m. (m 1, m 3))
       (search PADRAO (strip ''registre R$ 1.234,56 de despesas em 12/05/2024''))
     = Some (Some ''1.234,56'', Some ''12/05/2024'')
   \<and> strptime (replace CHR ''-'' ''/'' ''12/05/2024'') = Inr (2024, 5, 12)
   \<and> (\<exists>r. tentar_extrair_comando ''registre R$ 1.234,56 de despesas em 12/05/2024''
            = Inr (Some r) \<and> valor r = 1234.56)
   \<and> tentar_extrair_comando ''registre 150 de faturamento em 12/05/2024'' =
       Inr (Some \<lparr>data = ''2024-05-12'', tipo = ''faturamento'', valor = 150,
                  descricao = None\<rparr>)
   \<and> tentar_extrair_comando ''registre 10,5 de despesa em 12/05/2024'' =
       Inr (Some \<lparr>data = ''2024-05-12'', tipo = ''despesa'', valor = 10.5,
                  descricao = None\<rparr>)"
proof -
  let ?txt = "''registre R$ 1.234,56 de despesas em 12/05/2024''"
  have s: "map_option (\<lambda>m. (m 1, m 3)) (search PADRAO (strip ?txt))
      = Some (Some ''1.234,56'', Some ''12/05/2024'')"
    by code_simp
  then obtain m where m: "search PADRAO (strip ?txt) = Some m"
    and g: "m 1 = Some ''1.234,56''" "m 3 = Some ''12/05/2024''"
    by auto
  have d: "strptime (replace CHR ''-'' ''/'' ''12/05/2024'') = Inr (2024, 5, 12)"
    by code_simp
  have e1: "tentar_extrair_comando ''registre 150 de faturamento em 12/05/2024'' =
       Inr (Some \<lparr>data = ''2024-05-12'', tipo = ''faturamento'', valor = 150,
                  descricao = None\<rparr>)"
    by code_simp
  have e2: "tentar_extrair_comando ''registre 10,5 de despesa em 12/05/2024'' =
       Inr (Some \<lparr>data = ''2024-05-12'', tipo = ''despesa'', valor = 10.5,
                  descricao = None\<rparr>)"
    by code_simp
  from valor_normalizado [OF m g d] s d e1 e2 show ?thesis
    by simp
qed

text \<open>
  C5. Two sentences that differ only in where they write a dash and where a slash give
  the same outcome: the same error, no match for both, or records with the same date
  and amount. And in every matching sentence whose date slot reads \<open>12/05/2024\<close> once
  its dashes are turned into slashes (so \<open>12-05-2024\<close>, \<open>12/05-2024\<close> and \<open>12-05/2024\<close>
  as well), the record returned has the date \<open>2024-05-12\<close>.
\<close>

theorem separador_indiferente:
  "(replace CHR ''-'' ''/'' txt1 = replace CHR ''-'' ''/'' txt2 \<longrightarrow>
      map_sum id (map_option (\<lambda>r. (data r, valor r))) (tentar_extrair_comando txt1) =
      map_sum id (map_option (\<lambda>r. (data r, valor r))) (tentar_extrair_comando txt2))
   \<and> (search PADRAO (strip txt) = Some m \<and> m 1 = Some g1 \<and> m 3 = Some g3
       \<and> py_float (replace CHR '','' ''.'' (replace CHR ''.'' [] g1)) = Inr v
       \<and> replace CHR ''-'' ''/'' g3 = ''12/05/2024'' \<longrightarrow>
      (\<exists>r. tentar_extrair_comando txt = Inr (Some r) \<and> data r = ''2024-05-12''))"
proof -
  have p: "map_sum id (map_option (\<lambda>r. (data r, valor r))) (tentar_extrair_comando (map barra t)) =
      map_sum id (map_option (\<lambda>r. (data r, valor r))) (tentar_extrair_comando t)" for t
    unfolding tentar_barra
    by (cases "tentar_extrair_comando t") (auto simp: option.map_comp o_def)
  have a: "replace CHR ''-'' ''/'' txt1 = replace CHR ''-'' ''/'' txt2 \<longrightarrow>
      map_sum id (map_option (\<lambda>r. (data r, valor r))) (tentar_extrair_comando txt1) =
      map_sum id (map_option (\<lambda>r. (data r, valor r))) (tentar_extrair_comando txt2)"
    unfolding replace_barra using p [of txt1] p [of txt2] by auto
  have "strptime ''12/05/2024'' = Inr (2024, 5, 12)"
    by code_simp
  moreover have "isoformat (2024, 5, 12) = ''2024-05-12''"
    by code_simp
  ultimately have b: "search PADRAO (strip txt) = Some m \<and> m 1 = Some g1 \<and> m 3 = Some g3
       \<and> py_float (replace CHR '','' ''.'' (replace CHR ''.'' [] g1)) = Inr v
       \<and> replace CHR ''-'' ''/'' g3 = ''12/05/2024'' \<longrightarrow>
      (\<exists>r. tentar_extrair_comando txt = Inr (Some r) \<and> data r = ''2024-05-12'')"
    using extrai_registro [of "txt" m g1 g3 v "(2024, 5, 12)"] by auto
  from a b show ?thesis by (rule conjI)
qed

theorem separador_indiferente_witness:
  "replace CHR ''-'' ''/'' ''registre 150 de faturamento em 12-05-2024'' =
     replace CHR ''-'' ''/'' ''registre 150 de faturamento em 12/05/2024''
   \<and> map_sum id (map_option (\<lambda>r. (data r, valor r)))
         (tentar_extrair_comando ''registre 150 de faturamento em 12-05-2024'') =
       Inr (Some (''2024-05-12'', 150))
   \<and> map_option (\<lambda>m. (m 1, m 3))
         (search PADRAO (strip ''registre 150 de faturamento em 12-05/2024'')) =
       Some (Some ''150'', Some ''12-05/2024'')
   \<and> (\<exists>r. tentar_extrair_comando ''registre 150 de faturamento em 12-05/2024'' = Inr (Some r)
         \<and> data r = ''2024-05-12'')"
proof -
  let ?a = "''registre 150 de faturamento em 12/05/2024''"
  let ?b = "''registre 150 de faturamento em 12-05-2024''"
  let ?c = "''registre 150 de faturamento em 12-05/2024''"
  have r: "replace CHR ''-'' ''/'' ?b = replace CHR ''-'' ''/'' ?a"
    by (simp add: replace_def)
  have a: "tentar_extrair_comando ?a =
      Inr (Some \<lparr>data = ''2024-05-12'', tipo = ''faturamento'', valor = 150,
                 descricao = None\<rparr>)"
    by code_simp
  have s: "map_option (\<lambda>m. (m 1, m 3)) (search PADRAO (strip ?c)) =
      Some (Some ''150'', Some ''12-05/2024'')"
    by code_simp
  then obtain m where m: "search PADRAO (strip ?c) = Some m"
    and g: "m 1 = Some ''150''" "m 3 = Some ''12-05/2024''"
    by auto
  have f: "py_float (replace CHR '','' ''.'' (replace CHR ''.'' [] ''150'')) = Inr 150"
    by code_simp
  have d: "replace CHR ''-'' ''/'' ''12-05/2024'' = ''12/05/2024''"
    by (simp add: replace_def)
  from separador_indiferente [of ?b ?a ?c m "''150''" "''12-05/2024''" 150] r a m g f d s
  show ?thesis by simp
qed

lemma sem_registre:
  assumes "\<not> sublist ''registre'' (map lower txt)"
  shows "tentar_extrair_comando txt = Inr None"
proof (cases "search PADRAO (strip txt)")
  case None
  then show ?thesis by (simp add: tentar_extrair_comando_def)
next
  case (Some m)
  then have "sublist ''registre'' (map lower (strip txt))"
    by (rule search_PADRAO_registre)
  moreover obtain u v where "txt = u @ strip txt @ v"
    using strip_sublist by blast
  then have "map lower txt = map lower u @ map lower (strip txt) @ map lower v"
    by (metis map_append)
  ultimately have "sublist ''registre'' (map lower txt)"
    by (metis sublist_appendI sublist_order.order_trans)
  with assms show ?thesis by simp
qed

lemma ausente_da_imagem: "\<forall>c \<in> set xs. f c \<noteq> y \<Longrightarrow> y \<notin> set (map f xs)"
  by auto

lemma digito_nao_g: "isdigit c \<Longrightarrow> lower c \<noteq> CHR ''g''"
  by (auto simp: digito_lower isdigit_def Let_def)

lemma frase_sem_registre:
  assumes "list_all isdigit a"
    and "k = ''faturamento'' \<or> k = ''despesa''"
    and "list_all isdigit [d1, d2, m1, m2, y1, y2, y3, y4]"
  shows "tentar_extrair_comando
      (a @ '' de '' @ k @ '' em '' @ [d1, d2, CHR ''/'', m1, m2, CHR ''/'', y1, y2, y3, y4]) =
     Inr None"
proof -
  let ?S = "a @ '' de '' @ k @ '' em '' @ [d1, d2, CHR ''/'', m1, m2, CHR ''/'', y1, y2, y3, y4]"
  have a: "\<forall>c \<in> set a. lower c \<noteq> CHR ''g''"
    using assms(1) by (auto simp: list_all_iff dest: digito_nao_g)
  have k: "\<forall>c \<in> set k. lower c \<noteq> CHR ''g''"
    using assms(2) by (auto simp: lower_Char)
  have d: "\<forall>c \<in> set [d1, d2, CHR ''/'', m1, m2, CHR ''/'', y1, y2, y3, y4].
      lower c \<noteq> CHR ''g''"
    using assms(3) by (auto simp: lower_Char dest: digito_nao_g)
  have f: "\<forall>c \<in> set '' de '' \<union> set '' em ''. lower c \<noteq> CHR ''g''"
    by (auto simp: lower_Char)
  from a k d f have "\<forall>c \<in> set ?S. lower c \<noteq> CHR ''g''"
    by (simp only: set_append ball_Un) blast
  then have g: "CHR ''g'' \<notin> set (map lower ?S)"
    by (rule ausente_da_imagem)
  have "\<not> sublist ''registre'' (map lower ?S)"
  proof
    assume "sublist ''registre'' (map lower ?S)"
    then have "set ''registre'' \<subseteq> set (map lower ?S)"
      by (rule set_mono_sublist)
    then have "CHR ''g'' \<in> set (map lower ?S)"
      by (simp del: set_map set_append map_append)
    with g show False by (rule notE)
  qed
  then show ?thesis by (rule sem_registre)
qed

text \<open>
  C2 (as amended). The word \<open>registre\<close> is not optional; only the phrase
  \<open>no banco de dados\<close> after it is. For every amount in digits 0 to 9, either kind and every
  calendar date \<open>DD/MM/YYYY\<close>: the sentence made of the amount, \<open>de\<close>, the kind, \<open>em\<close>
  and the date, which has every mandatory slot but not \<open>registre\<close>, gives the no-match
  result, while the same sentence after \<open>registre\<close>, and after
  \<open>registre no banco de dados\<close>, returns the record of its slots.
\<close>

theorem registre_obrigatorio:
  "a \<noteq> [] \<and> list_all isdigit a
     \<and> (k = ''faturamento'' \<or> k = ''despesa'')
     \<and> list_all isdigit [d1, d2, m1, m2, y1, y2, y3, y4]
     \<and> strptime [d1, d2, CHR ''/'', m1, m2, CHR ''/'', y1, y2, y3, y4] = Inr ymd \<longrightarrow>
   tentar_extrair_comando
     (a @ '' de '' @ k @ '' em '' @ [d1, d2, CHR ''/'', m1, m2, CHR ''/'', y1, y2, y3, y4]) =
   Inr None
   \<and> tentar_extrair_comando
       (''registre '' @ a @ '' de '' @ k @ '' em ''
          @ [d1, d2, CHR ''/'', m1, m2, CHR ''/'', y1, y2, y3, y4]) =
     Inr (Some \<lparr>data = isoformat ymd, tipo = k, valor = of_nat (int_of_digits a),
                descricao = None\<rparr>)
   \<and> tentar_extrair_comando
       (''registre no banco de dados '' @ a @ '' de '' @ k @ '' em ''
          @ [d1, d2, CHR ''/'', m1, m2, CHR ''/'', y1, y2, y3, y4]) =
     Inr (Some \<lparr>data = isoformat ymd, tipo = k, valor = of_nat (int_of_digits a),
                descricao = None\<rparr>)"
proof (intro impI)
  assume h: "a \<noteq> [] \<and> list_all isdigit a
     \<and> (k = ''faturamento'' \<or> k = ''despesa'')
     \<and> list_all isdigit [d1, d2, m1, m2, y1, y2, y3, y4]
     \<and> strptime [d1, d2, CHR ''/'', m1, m2, CHR ''/'', y1, y2, y3, y4] = Inr ymd"
  then have n: "tentar_extrair_comando
     (a @ '' de '' @ k @ '' em '' @ [d1, d2, CHR ''/'', m1, m2, CHR ''/'', y1, y2, y3, y4]) =
     Inr None"
    using frase_sem_registre [of a k d1 d2 m1 m2 y1 y2 y3 y4] by blast
  from h have p: "tentar_extrair_comando
       (p @ a @ '' de '' @ k @ '' em ''
          @ [d1, d2, CHR ''/'', m1, m2, CHR ''/'', y1, y2, y3, y4]) =
     Inr (Some \<lparr>data = isoformat ymd, tipo = k, valor = of_nat (int_of_digits a),
                descricao = None\<rparr>)"
    if "p = ''registre '' \<or> p = ''registre no banco de dados ''" for p
    using that frase_registro [of p a k d1 d2 m1 m2 y1 y2 y3 y4 ymd] by blast
  from n p [of "''registre ''"] p [of "''registre no banco de dados ''"]
  show "tentar_extrair_comando
     (a @ '' de '' @ k @ '' em '' @ [d1, d2, CHR ''/'', m1, m2, CHR ''/'', y1, y2, y3, y4]) =
   Inr None
   \<and> tentar_extrair_comando
       (''registre '' @ a @ '' de '' @ k @ '' em ''
          @ [d1, d2, CHR ''/'', m1, m2, CHR ''/'', y1, y2, y3, y4]) =
     Inr (Some \<lparr>data = isoformat ymd, tipo = k, valor = of_nat (int_of_digits a),
                descricao = None\<rparr>)
   \<and> tentar_extrair_comando
       (''registre no banco de dados '' @ a @ '' de '' @ k @ '' em ''
          @ [d1, d2, CHR ''/'', m1, m2, CHR ''/'', y1, y2, y3, y4]) =
     Inr (Some \<lparr>data = isoformat ymd, tipo = k, valor = of_nat (int_of_digits a),
                descricao = None\<rparr>)"
    by simp
qed

theorem registre_obrigatorio_witness:
  "tentar_extrair_comando ''150 de faturamento em 12/05/2024'' = Inr None
   \<and> tentar_extrair_comando ''registre 150 de faturamento em 12/05/2024'' =
       Inr (Some \<lparr>data = ''2024-05-12'', tipo = ''faturamento'', valor = 150,
                  descricao = None\<rparr>)
   \<and> tentar_extrair_comando ''registre no banco de dados 150 de faturamento em 12/05/2024'' =
       Inr (Some \<lparr>data = ''2024-05-12'', tipo = ''faturamento'', valor = 150,
                  descricao = None\<rparr>)"
proof -
  have a: "''150'' \<noteq> []" "list_all isdigit ''150''"
    "list_all isdigit [CHR ''1'', CHR ''2'', CHR ''0'', CHR ''5'',
       CHR ''2'', CHR ''0'', CHR ''2'', CHR ''4'']"
    by (simp_all add: isdigit_def)
  have d: "strptime ''12/05/2024'' = Inr (2024, 5, 12)"
    by code_simp
  have i: "isoformat (2024, 5, 12) = ''2024-05-12''"
    by code_simp
  have v: "int_of_digits ''150'' = 150"
    by code_simp
  from registre_obrigatorio [of "''150''" "''faturamento''"
      "CHR ''1''" "CHR ''2''" "CHR ''0''" "CHR ''5''"
      "CHR ''2''" "CHR ''0''" "CHR ''2''" "CHR ''4''" "(2024, 5, 12)"]
    a d i v
  show ?thesis by simp
qed

theorem registre_obrigatorio_counterexample:
  "tentar_extrair_comando ''150 de faturamento em 12/05/2024'' = Inr None
   \<and> \<not> (\<exists>r. tentar_extrair_comando ''150 de faturamento em 12/05/2024'' = Inr (Some r))"
proof -
  have "tentar_extrair_comando ''150 de faturamento em 12/05/2024'' = Inr None"
    by code_simp
  then show ?thesis by simp
qed

end
